theory Spec2Isabelle
  imports Complex_Main "HOL-Library.FSet"
begin

section \<open>Python strings\<close>


text \<open>\<open>str.replace(" ", "-")\<close>: every space becomes a hyphen.\<close>

definition replace_space :: "string \<Rightarrow> string" where
  "replace_space s = map (\<lambda>c. if c = CHR '' '' then CHR ''-'' else c) s"

text \<open>
  \<open>str.lower()\<close> on ASCII text: the letters A to Z become a to z and every other
  character is kept.
\<close>

definition char_lower :: "char \<Rightarrow> char" where
  "char_lower c =
     (case map_of (zip ''ABCDEFGHIJKLMNOPQRSTUVWXYZ'' ''abcdefghijklmnopqrstuvwxyz'') c of
        Some l \<Rightarrow> l
      | None \<Rightarrow> c)"

definition lower :: "string \<Rightarrow> string" where
  "lower s = map char_lower s"

text \<open>\<open>sep.join(parts)\<close>.\<close>

fun join :: "string \<Rightarrow> string list \<Rightarrow> string" where
  "join sep [] = []"
| "join sep [p] = p"
| "join sep (p # q # ps) = p @ sep @ join sep (q # ps)"

text \<open>\<open>s.startswith(p)\<close>.\<close>

definition startswith :: "string \<Rightarrow> string \<Rightarrow> bool" where
  "startswith s p = (take (length p) s = p)"

text \<open>
  \<open>s.rfind(c)\<close> for a one-character \<open>c\<close>: the index of its last occurrence, or
  \<open>-1\<close> when there is none.
\<close>

definition rfind :: "string \<Rightarrow> char \<Rightarrow> int" where
  "rfind s c =
     (if c \<in> set s
      then int (length s) - 1 - int (length (takeWhile (\<lambda>x. x \<noteq> c) (rev s)))
      else - 1)"

subsection \<open>The format specification \<open>03d\<close>\<close>

definition digit_char :: "nat \<Rightarrow> char" where
  "digit_char d = ''0123456789'' ! (d mod 10)"

text \<open>The decimal digits of a natural number, as \<open>str(n)\<close> writes them.\<close>

fun str_nat :: "nat \<Rightarrow> string" where
  "str_nat n = (if n < 10 then [digit_char n] else str_nat (n div 10) @ [digit_char (n mod 10)])"

declare str_nat.simps [simp del]

text \<open>Left padding with the character 0 up to a width.\<close>

definition zfill :: "nat \<Rightarrow> string \<Rightarrow> string" where
  "zfill w s = replicate (w - length s) (CHR ''0'') @ s"

text \<open>
  \<open>f"{i:03d}"\<close>: sign-aware zero padding to a minimum width of three characters. A
  negative number keeps its sign in front of the padding (\<open>-1\<close> is written \<open>-01\<close>),
  and a number of more than three digits is written in full.
\<close>

definition fmt03d :: "int \<Rightarrow> string" where
  "fmt03d i = (if i < 0 then CHR ''-'' # zfill 2 (str_nat (nat (- i))) else zfill 3 (str_nat (nat i)))"

text \<open>Reading a digit string back; used to state what \<open>fmt03d\<close> writes.\<close>

definition is_digit :: "char \<Rightarrow> bool" where
  "is_digit c = (c \<in> set ''0123456789'')"

definition digit_val :: "char \<Rightarrow> nat" where
  "digit_val c = length (takeWhile (\<lambda>d. d \<noteq> c) ''0123456789'')"

definition decode_nat :: "string \<Rightarrow> nat" where
  "decode_nat s = foldl (\<lambda>acc c. 10 * acc + digit_val c) 0 s"

section \<open>pathlib: name, stem and suffix of a POSIX path\<close>

text \<open>
  \<open>_ensure_unique_filename\<close> splits a file name with \<open>Path(name).stem\<close> and
  \<open>Path(name).suffix\<close>. \<open>Path\<close> is the path class of the platform the program runs
  on. The model is the one of a POSIX platform, where \<open>Path\<close> is \<open>PosixPath\<close>; it
  follows \<open>PurePosixPath\<close> of CPython up to 3.13: the path is cut at every \<open>/\<close>, empty
  components and \<open>.\<close> components are dropped, \<open>name\<close> is the last component left
  (empty when there is none), and the suffix starts at the last dot of the name unless
  that dot is the first or the last character. On Windows \<open>Path\<close> is \<open>WindowsPath\<close>,
  which also cuts at every backslash and splits off a drive; that flavour is not
  modelled, and everything stated below about stems and suffixes is stated for POSIX.
\<close>

fun split_sep :: "char \<Rightarrow> string \<Rightarrow> string list" where
  "split_sep sep [] = [[]]"
| "split_sep sep (c # cs) =
     (if c = sep then [] # split_sep sep cs
      else (case split_sep sep cs of [] \<Rightarrow> [[c]] | p # ps \<Rightarrow> (c # p) # ps))"

definition path_parts :: "string \<Rightarrow> string list" where
  "path_parts s = filter (\<lambda>p. p \<noteq> [] \<and> p \<noteq> ''.'') (split_sep (CHR ''/'') s)"

definition path_name :: "string \<Rightarrow> string" where
  "path_name s = (case path_parts s of [] \<Rightarrow> [] | p # ps \<Rightarrow> last (p # ps))"

definition path_suffix :: "string \<Rightarrow> string" where
  "path_suffix s =
     (let name = path_name s; i = rfind name (CHR ''.'')
      in if 0 < i \<and> i < int (length name) - 1 then drop (nat i) name else [])"

definition path_stem :: "string \<Rightarrow> string" where
  "path_stem s =
     (let name = path_name s; i = rfind name (CHR ''.'')
      in if 0 < i \<and> i < int (length name) - 1 then take (nat i) name else name)"

section \<open>Frame data read by the naming convention\<close>

text \<open>
  \<open>FrameData\<close> is an external record (\<open>data/frame_data.py\<close>); the naming
  code reads its head poses and closeup detections only. A label that is \<open>None\<close> is
  \<open>None\<close> here; the code tests labels for truthiness, so \<open>None\<close> and the empty
  string are treated alike. A confidence is modelled by the rational number the float
  denotes; only its order is used.
\<close>

record HeadPoseResult =
  direction :: "string option"
  confidence :: rat

record CloseupDetection =
  shot_type :: "string option"

record FrameData =
  head_poses :: "HeadPoseResult list"
  closeup_detections :: "CloseupDetection list"

text \<open>
  Modelled from the spec: \<open>FrameData.get_best_head_pose\<close>, whose source is not among
  the files, "returns the highest-confidence head pose or none"; among equally
  confident poses the earliest is taken.
\<close>

fun best_of :: "HeadPoseResult \<Rightarrow> HeadPoseResult list \<Rightarrow> HeadPoseResult" where
  "best_of b [] = b"
| "best_of b (p # ps) = best_of (if confidence b < confidence p then p else b) ps"

definition get_best_head_pose :: "FrameData \<Rightarrow> HeadPoseResult option" where
  "get_best_head_pose frame =
     (case head_poses frame of [] \<Rightarrow> None | p # ps \<Rightarrow> Some (best_of p ps))"

section \<open>NamingConvention\<close>

text \<open>
  The state of one \<open>NamingConvention\<close> instance: the two values copied from the
  processing context, the set \<open>_used_filenames\<close> (finite, as every Python set is) and
  the dictionary \<open>_sequence_counters\<close>, a \<open>defaultdict(int)\<close>: a key that is absent
  reads as 0.
\<close>

record NamingConvention =
  video_base_name :: string
  output_directory :: string
  used_filenames :: "string fset"
  sequence_counters :: "string \<rightharpoonup> int"

definition init_naming :: "string \<Rightarrow> string \<Rightarrow> NamingConvention" where
  "init_naming base outdir =
     \<lparr>video_base_name = base, output_directory = outdir,
      used_filenames = {||}, sequence_counters = Map.empty\<rparr>"

definition counter_of :: "(string \<rightharpoonup> int) \<Rightarrow> string \<Rightarrow> int" where
  "counter_of m k = (case m k of None \<Rightarrow> 0 | Some n \<Rightarrow> n)"

text \<open>\<open>_get_head_direction\<close>.\<close>

definition get_head_direction :: "FrameData \<Rightarrow> string" where
  "get_head_direction frame =
     (if head_poses frame \<noteq> [] then
        (case get_best_head_pose frame of
           None \<Rightarrow> []
         | Some best \<Rightarrow>
             (case direction best of
                None \<Rightarrow> []
              | Some d \<Rightarrow> if d \<noteq> [] then lower (replace_space d) else []))
      else [])"

text \<open>\<open>_get_shot_type\<close>: the loop returns at the first detection with a shot type.\<close>

fun first_shot_type :: "CloseupDetection list \<Rightarrow> string" where
  "first_shot_type [] = []"
| "first_shot_type (c # cs) =
     (case shot_type c of
        None \<Rightarrow> first_shot_type cs
      | Some s \<Rightarrow> if s \<noteq> [] then lower (replace_space s) else first_shot_type cs)"

definition get_shot_type :: "FrameData \<Rightarrow> string" where
  "get_shot_type frame =
     (if closeup_detections frame \<noteq> [] then first_shot_type (closeup_detections frame) else [])"

text \<open>
  \<open>_ensure_unique_filename\<close>. The \<open>while True\<close> loop is a partial function: not
  returning is the value \<open>None\<close>. It returns the first unused name and its sequence
  number.
\<close>

definition sequenced_name :: "string \<Rightarrow> string \<Rightarrow> int \<Rightarrow> string" where
  "sequenced_name name_without_ext extension sequence =
     name_without_ext @ ''_'' @ fmt03d sequence @ extension"

partial_function (option) unique_loop ::
  "string fset \<Rightarrow> string \<Rightarrow> string \<Rightarrow> int \<Rightarrow> (string \<times> int) option" where
  "unique_loop used name_without_ext extension sequence =
     (let new_filename = sequenced_name name_without_ext extension sequence
      in if new_filename |\<notin>| used then Some (new_filename, sequence)
         else unique_loop used name_without_ext extension (sequence + 1))"

definition ensure_unique_filename ::
  "NamingConvention \<Rightarrow> string \<Rightarrow> (string \<times> NamingConvention) option" where
  "ensure_unique_filename nc base_filename =
     (if base_filename |\<notin>| used_filenames nc then
        Some (base_filename, nc\<lparr>used_filenames := finsert base_filename (used_filenames nc)\<rparr>)
      else
        (let name_without_ext = path_stem base_filename;
             extension = path_suffix base_filename;
             sequence = counter_of (sequence_counters nc) name_without_ext + 1
         in case unique_loop (used_filenames nc) name_without_ext extension sequence of
              None \<Rightarrow> None
            | Some (new_filename, sequence') \<Rightarrow>
                Some (new_filename,
                  nc\<lparr>used_filenames := finsert new_filename (used_filenames nc),
                     sequence_counters := (sequence_counters nc)(name_without_ext \<mapsto> sequence')\<rparr>)))"

text \<open>\<open>get_full_frame_filename\<close>; \<open>full_frame_base_filename\<close> is its local \<open>base_filename\<close>.\<close>

definition full_frame_base_filename ::
  "NamingConvention \<Rightarrow> FrameData \<Rightarrow> string \<Rightarrow> int \<Rightarrow> string \<Rightarrow> string" where
  "full_frame_base_filename nc frame category rank extension =
     (let head_direction = get_head_direction frame;
          shot_type = get_shot_type frame;
          base_parts = [video_base_name nc, category, head_direction, shot_type, fmt03d rank]
      in join ''_'' (filter (\<lambda>part. part \<noteq> []) base_parts) @ ''.'' @ extension)"

definition get_full_frame_filename ::
  "NamingConvention \<Rightarrow> FrameData \<Rightarrow> string \<Rightarrow> int \<Rightarrow> string \<Rightarrow> (string \<times> NamingConvention) option" where
  "get_full_frame_filename nc frame category rank extension =
     ensure_unique_filename nc (full_frame_base_filename nc frame category rank extension)"

text \<open>\<open>get_face_crop_filename\<close>; the frame is an argument the code never reads.\<close>

definition face_crop_base_filename ::
  "NamingConvention \<Rightarrow> string \<Rightarrow> int \<Rightarrow> string \<Rightarrow> string" where
  "face_crop_base_filename nc head_angle rank extension =
     (let base_parts = [video_base_name nc, ''face'', head_angle, fmt03d rank]
      in join ''_'' base_parts @ ''.'' @ extension)"

definition get_face_crop_filename ::
  "NamingConvention \<Rightarrow> FrameData \<Rightarrow> string \<Rightarrow> int \<Rightarrow> string \<Rightarrow> (string \<times> NamingConvention) option" where
  "get_face_crop_filename nc frame head_angle rank extension =
     ensure_unique_filename nc (face_crop_base_filename nc head_angle rank extension)"

text \<open>\<open>validate_filename\<close>: the checks in the order of the code.\<close>

definition invalid_chars :: string where
  "invalid_chars = ''<>:'' @ [CHR 0x22] @ ''/'' @ [CHR 0x5C] @ ''|?*''"

definition validate_filename :: "NamingConvention \<Rightarrow> string \<Rightarrow> bool" where
  "validate_filename nc filename =
     (if filename = [] then False
      else if list_ex (\<lambda>char. char \<in> set filename) invalid_chars then False
      else if length filename > 255 then False
      else if \<not> startswith filename (video_base_name nc) then False
      else True)"

text \<open>\<open>reset_counters\<close>.\<close>

definition reset_counters :: "NamingConvention \<Rightarrow> NamingConvention" where
  "reset_counters nc = nc\<lparr>used_filenames := {||}, sequence_counters := Map.empty\<rparr>"

text \<open>
  A sequence of filename-issuing calls on one instance, with no \<open>reset_counters\<close> in
  between: each call runs on the state the previous one left, and the names are collected
  in the order they were returned.
\<close>

datatype naming_call =
    FullFrame FrameData string int string
  | FaceCrop FrameData string int string

fun base_filename_of :: "NamingConvention \<Rightarrow> naming_call \<Rightarrow> string" where
  "base_filename_of nc (FullFrame frame category rank extension) =
     full_frame_base_filename nc frame category rank extension"
| "base_filename_of nc (FaceCrop frame head_angle rank extension) =
     face_crop_base_filename nc head_angle rank extension"

fun issue :: "NamingConvention \<Rightarrow> naming_call \<Rightarrow> (string \<times> NamingConvention) option" where
  "issue nc (FullFrame frame category rank extension) =
     get_full_frame_filename nc frame category rank extension"
| "issue nc (FaceCrop frame head_angle rank extension) =
     get_face_crop_filename nc frame head_angle rank extension"

fun issue_all :: "NamingConvention \<Rightarrow> naming_call list \<Rightarrow> (string list \<times> NamingConvention) option" where
  "issue_all nc [] = Some ([], nc)"
| "issue_all nc (c # cs) =
     (case issue nc c of
        None \<Rightarrow> None
      | Some (name, nc1) \<Rightarrow>
          (case issue_all nc1 cs of
             None \<Rightarrow> None
           | Some (names, nc2) \<Rightarrow> Some (name # names, nc2)))"

text \<open>The frame of the examples: one head pose, facing front, and no closeup detection.\<close>

definition front_frame :: FrameData where
  "front_frame = \<lparr>head_poses = [\<lparr>direction = Some ''front'', confidence = 9 / 10\<rparr>],
                    closeup_detections = []\<rparr>"




section \<open>Configuration: documents, objects and field declarations\<close>

text \<open>
  The configuration classes of \<open>data/config.py\<close> are declarations for pydantic (version
  2: \<open>field_validator\<close>, \<open>field_serializer\<close>, \<open>ConfigDict\<close>): every field has a type, a
  default and bounds. The library is not part of the repository; the model below states
  what it does with such declarations, and the declarations themselves are transcribed
  field by field.

  A \<open>pyval\<close> is a document as \<open>yaml.safe_load\<close> and \<open>json.load\<close> return it, and as the
  keyword arguments of a constructor hold it. A \<open>pyobj\<close> is an object held by a validated
  model: a number, a string, a member of an enumeration (by its value), a \<open>Path\<close> (by its
  string) or a nested model (its fields in declaration order). A Python float is
  modelled by the rational number it denotes: comparisons are exact, and the one sum the
  code computes, in \<open>validate_weights_sum\<close>, is the exact sum. Floating-point addition
  rounds, so a sum that rounding brings down to 1.0 (0.7000000000000001 + 0.3) is
  accepted by the code and refused by the model; the weights used below (0.3, 0.4, 0.5,
  0.6, 0.7) are decided the same way by both.
\<close>

datatype pyval =
    PNone | PBool bool | PInt int | PFloat rat | PStr string
  | PList "pyval list" | PDict "(string \<times> pyval) list"

datatype pyobj =
    VNone | VBool bool | VInt int | VFloat rat | VStr string
  | VEnum string | VPath string | VModel "(string \<times> pyobj) list"

text \<open>
  A field declaration: name, type with bounds (\<open>ge\<close>, \<open>le\<close>), default, and the
  \<open>field_validator\<close> functions registered for it. \<open>Optional[T]\<close> is \<open>TOptional\<close>; a field
  whose type is another model class is \<open>TModel\<close> with that class's fields.
\<close>

datatype after_validator = Validate_weights_sum

datatype field_type =
    TStr | TBool
  | TInt "int option" "int option"
  | TFloat "rat option" "rat option"
  | TEnum "string list"
  | TPath
  | TOptional field_type
  | TModel "field list"
and field = Field string field_type pyobj "after_validator list"

fun in_bounds :: "('a::linorder) option \<Rightarrow> 'a option \<Rightarrow> 'a \<Rightarrow> bool" where
  "in_bounds ge le x =
     ((case ge of None \<Rightarrow> True | Some l \<Rightarrow> l \<le> x) \<and> (case le of None \<Rightarrow> True | Some h \<Rightarrow> x \<le> h))"

text \<open>
  \<open>FrameSelectionConfig.validate_weights_sum(cls, v, info)\<close>, registered for
  \<open>face_size_weight\<close> and \<open>quality_weight\<close>. \<open>info.data\<close> holds the fields validated before
  this one; \<open>info.data.get("face_size_weight", 0.3)\<close> falls back to 0.3.
\<close>

definition validate_weights_sum :: "rat \<Rightarrow> string \<Rightarrow> (string \<times> pyobj) list \<Rightarrow> string + rat" where
  "validate_weights_sum v field_name data =
     (if field_name = ''quality_weight'' then
        (let face_size_weight =
               (case map_of data ''face_size_weight'' of Some (VFloat w) \<Rightarrow> w | _ \<Rightarrow> 3 / 10)
         in if v + face_size_weight > 1 then Inl ''face_size_weight + quality_weight must not exceed 1.0''
            else Inr v)
      else Inr v)"

fun run_after :: "after_validator \<Rightarrow> string \<Rightarrow> (string \<times> pyobj) list \<Rightarrow> pyobj \<Rightarrow> pyobj option" where
  "run_after Validate_weights_sum field_name data (VFloat v) =
     (case validate_weights_sum v field_name data of Inl msg \<Rightarrow> None | Inr v' \<Rightarrow> Some (VFloat v'))"
| "run_after Validate_weights_sum field_name data v = Some v"

fun run_validators :: "after_validator list \<Rightarrow> string \<Rightarrow> (string \<times> pyobj) list \<Rightarrow> pyobj \<Rightarrow> pyobj option" where
  "run_validators [] field_name data v = Some v"
| "run_validators (a # as) field_name data v =
     (case run_after a field_name data v of None \<Rightarrow> None | Some v' \<Rightarrow> run_validators as field_name data v')"

text \<open>
  \<open>str(Path(s))\<close> on POSIX: the root is kept (two leading slashes are a root of their
  own), empty and \<open>.\<close> components are dropped, and the empty path is written \<open>.\<close>.
  \<open>convert_path\<close> and \<open>convert_log_path\<close> turn a string into a \<open>Path\<close> and leave \<open>None\<close>
  alone, which is what the field types \<open>TPath\<close> and \<open>TOptional TPath\<close> do below. (For a
  value that is neither a string nor \<open>None\<close> the converter's \<open>Path(v)\<close> raises
  \<open>TypeError\<close>; the model reports it as a validation failure of the field.)
\<close>

definition Path_str :: "string \<Rightarrow> string" where
  "Path_str s =
     (let root = (if take 2 s = ''//'' \<and> take 3 s \<noteq> ''///'' then ''//''
                  else if take 1 s = ''/'' then ''/'' else []);
          parts = path_parts s
      in if root = [] \<and> parts = [] then ''.'' else root @ join ''/'' parts)"

text \<open>
  Validation of a document against a type, as pydantic does it when a model is
  constructed. The fields of a model are taken in declaration order. A field that the
  keyword arguments do not give takes its default, which is not validated. A field that
  is given is converted to its type and checked against its bounds, then passed to its
  validators together with the fields validated so far. Every failure is recorded with
  its location (the field names from the outermost model inwards) and validation goes on
  with the next field; keys that name no field are ignored. The conversions modelled
  are: an int for a float field, and a float without fractional part for an int field.
  pydantic's lax mode converts more than that (a numeric string such as \<open>"4"\<close> for an
  int field, 0 or 1 for a bool field) and refuses a float beyond the 64-bit range for an
  int field; the model rejects the former and accepts the latter. Every document that
  is validated below holds values of the declared types only, where the model and the
  library agree.
\<close>

fun validate :: "field_type \<Rightarrow> pyval \<Rightarrow> string list list + pyobj"
and validate_fields ::
  "field list \<Rightarrow> (string \<times> pyval) list \<Rightarrow> string list list \<Rightarrow> (string \<times> pyobj) list \<Rightarrow>
   string list list \<times> (string \<times> pyobj) list" where
  "validate TStr v = (case v of PStr s \<Rightarrow> Inr (VStr s) | _ \<Rightarrow> Inl [[]])"
| "validate TBool v = (case v of PBool b \<Rightarrow> Inr (VBool b) | _ \<Rightarrow> Inl [[]])"
| "validate (TInt ge le) v =
     (case v of
        PInt i \<Rightarrow> if in_bounds ge le i then Inr (VInt i) else Inl [[]]
      | PFloat x \<Rightarrow>
          if x = of_int \<lfloor>x\<rfloor> \<and> in_bounds ge le \<lfloor>x\<rfloor> then Inr (VInt \<lfloor>x\<rfloor>) else Inl [[]]
      | _ \<Rightarrow> Inl [[]])"
| "validate (TFloat ge le) v =
     (case v of
        PFloat x \<Rightarrow> if in_bounds ge le x then Inr (VFloat x) else Inl [[]]
      | PInt i \<Rightarrow> if in_bounds ge le (of_int i) then Inr (VFloat (of_int i)) else Inl [[]]
      | _ \<Rightarrow> Inl [[]])"
| "validate (TEnum members) v =
     (case v of PStr s \<Rightarrow> if s \<in> set members then Inr (VEnum s) else Inl [[]] | _ \<Rightarrow> Inl [[]])"
| "validate TPath v = (case v of PStr s \<Rightarrow> Inr (VPath (Path_str s)) | _ \<Rightarrow> Inl [[]])"
| "validate (TOptional t) v = (case v of PNone \<Rightarrow> Inr VNone | _ \<Rightarrow> validate t v)"
| "validate (TModel model_fields) v =
     (case v of
        PDict kwargs \<Rightarrow>
          (case validate_fields model_fields kwargs [] [] of
             ([], data) \<Rightarrow> Inr (VModel data)
           | (errors, data) \<Rightarrow> Inl errors)
      | _ \<Rightarrow> Inl [[]])"
| "validate_fields [] kwargs errors data = (errors, data)"
| "validate_fields (Field name t dflt validators # model_fields) kwargs errors data =
     (case map_of kwargs name of
        None \<Rightarrow> validate_fields model_fields kwargs errors (data @ [(name, dflt)])
      | Some v \<Rightarrow>
          (case validate t v of
             Inl es \<Rightarrow> validate_fields model_fields kwargs (errors @ map (\<lambda>loc. name # loc) es) data
           | Inr x \<Rightarrow>
               (case run_validators validators name data x of
                  None \<Rightarrow> validate_fields model_fields kwargs (errors @ [[name]]) data
                | Some x' \<Rightarrow> validate_fields model_fields kwargs errors (data @ [(name, x')]))))"

text \<open>
  \<open>Field(default_factory=SomeConfig)\<close>: the default of a model-valued field is the model
  built from no arguments, that is, from the defaults of its fields.
\<close>

fun default_of :: "field \<Rightarrow> string \<times> pyobj" where
  "default_of (Field name t dflt validators) = (name, dflt)"

definition model_defaults :: "field list \<Rightarrow> pyobj" where
  "model_defaults model_fields = VModel (map default_of model_fields)"

text \<open>
  \<open>self.dict()\<close>: nested models become dictionaries; the \<open>field_serializer\<close> functions
  (\<open>serialize_device\<close>, \<open>serialize_level\<close>, \<open>serialize_path\<close>, \<open>serialize_log_path\<close>) turn
  enumeration members into their values and paths into strings.
\<close>

fun model_dump :: "pyobj \<Rightarrow> pyval" where
  "model_dump VNone = PNone"
| "model_dump (VBool b) = PBool b"
| "model_dump (VInt i) = PInt i"
| "model_dump (VFloat x) = PFloat x"
| "model_dump (VStr s) = PStr s"
| "model_dump (VEnum s) = PStr s"
| "model_dump (VPath p) = PStr p"
| "model_dump (VModel data) = PDict (map (\<lambda>(name, v). (name, model_dump v)) data)"

section \<open>Configuration: the classes of \<open>config.py\<close>\<close>

text \<open>
  \<open>DEFAULT_CONFIDENCE_THRESHOLD = 0.3\<close>, \<open>DEFAULT_BATCH_SIZE = 1\<close>. The default cache
  directory is \<open>user_cache_dir("personfromvid", "codeprimate")\<close> of \<open>platformdirs\<close>, a
  value of the platform: it is the parameter \<open>user_cache_dir\<close>.
\<close>

definition DeviceType_values :: "string list" where
  "DeviceType_values = [''cpu'', ''gpu'', ''auto'']"

definition LogLevel_values :: "string list" where
  "LogLevel_values = [''DEBUG'', ''INFO'', ''WARNING'', ''ERROR'', ''CRITICAL'']"

definition ModelConfig_fields :: "field list" where
  "ModelConfig_fields =
     [Field ''face_detection_model'' TStr (VStr ''yolov8s-face'') [],
      Field ''pose_estimation_model'' TStr (VStr ''yolov8s-pose'') [],
      Field ''head_pose_model'' TStr (VStr ''sixdrepnet'') [],
      Field ''device'' (TEnum DeviceType_values) (VEnum ''auto'') [],
      Field ''batch_size'' (TInt (Some 1) (Some 64)) (VInt 1) [],
      Field ''confidence_threshold'' (TFloat (Some 0) (Some 1)) (VFloat (3 / 10)) []]"

definition FrameExtractionConfig_fields :: "field list" where
  "FrameExtractionConfig_fields =
     [Field ''temporal_sampling_interval'' (TFloat (Some (1 / 10)) (Some 2)) (VFloat (1 / 4)) [],
      Field ''enable_keyframe_detection'' TBool (VBool True) [],
      Field ''enable_temporal_sampling'' TBool (VBool True) [],
      Field ''max_frames_per_video'' (TOptional (TInt (Some 10) None)) VNone [],
      Field ''deduplication_enabled'' TBool (VBool True) []]"

definition QualityConfig_fields :: "field list" where
  "QualityConfig_fields =
     [Field ''blur_threshold'' (TFloat (Some 10) None) (VFloat 100) [],
      Field ''brightness_min'' (TFloat (Some 0) (Some 255)) (VFloat 30) [],
      Field ''brightness_max'' (TFloat (Some 0) (Some 255)) (VFloat 225) [],
      Field ''contrast_min'' (TFloat (Some 0) None) (VFloat 20) [],
      Field ''enable_multiple_metrics'' TBool (VBool True) []]"

definition PoseClassificationConfig_fields :: "field list" where
  "PoseClassificationConfig_fields =
     [Field ''standing_hip_knee_angle_min'' (TFloat (Some 120) (Some 180)) (VFloat 160) [],
      Field ''sitting_hip_knee_angle_min'' (TFloat (Some 45) (Some 120)) (VFloat 80) [],
      Field ''sitting_hip_knee_angle_max'' (TFloat (Some 80) (Some 160)) (VFloat 120) [],
      Field ''squatting_hip_knee_angle_max'' (TFloat (Some 45) (Some 120)) (VFloat 90) [],
      Field ''closeup_face_area_threshold'' (TFloat (Some (1 / 20)) (Some (1 / 2))) (VFloat (3 / 20)) []]"

definition HeadAngleConfig_fields :: "field list" where
  "HeadAngleConfig_fields =
     [Field ''yaw_threshold_degrees'' (TFloat (Some 10) (Some 45)) (VFloat (45 / 2)) [],
      Field ''pitch_threshold_degrees'' (TFloat (Some 10) (Some 45)) (VFloat (45 / 2)) [],
      Field ''max_roll_degrees'' (TFloat (Some 15) (Some 60)) (VFloat 30) [],
      Field ''profile_yaw_threshold'' (TFloat (Some 45) (Some 90)) (VFloat (135 / 2)) []]"

definition CloseupDetectionConfig_fields :: "field list" where
  "CloseupDetectionConfig_fields =
     [Field ''extreme_closeup_threshold'' (TFloat (Some (15 / 100)) (Some (1 / 2))) (VFloat (1 / 4)) [],
      Field ''closeup_threshold'' (TFloat (Some (8 / 100)) (Some (3 / 10))) (VFloat (15 / 100)) [],
      Field ''medium_closeup_threshold'' (TFloat (Some (4 / 100)) (Some (15 / 100))) (VFloat (8 / 100)) [],
      Field ''medium_shot_threshold'' (TFloat (Some (1 / 100)) (Some (8 / 100))) (VFloat (3 / 100)) [],
      Field ''shoulder_width_threshold'' (TFloat (Some (2 / 10)) (Some (6 / 10))) (VFloat (35 / 100)) [],
      Field ''enable_composition_analysis'' TBool (VBool True) [],
      Field ''enable_distance_estimation'' TBool (VBool True) []]"

definition FrameSelectionConfig_fields :: "field list" where
  "FrameSelectionConfig_fields =
     [Field ''min_quality_threshold'' (TFloat (Some 0) (Some 1)) (VFloat (2 / 10)) [],
      Field ''face_size_weight'' (TFloat (Some 0) (Some 1)) (VFloat (3 / 10)) [Validate_weights_sum],
      Field ''quality_weight'' (TFloat (Some 0) (Some 1)) (VFloat (7 / 10)) [Validate_weights_sum],
      Field ''diversity_threshold'' (TFloat (Some 0) (Some 1)) (VFloat (8 / 10)) []]"

definition PngConfig_fields :: "field list" where
  "PngConfig_fields = [Field ''optimize'' TBool (VBool True) []]"

definition JpegConfig_fields :: "field list" where
  "JpegConfig_fields = [Field ''quality'' (TInt (Some 70) (Some 100)) (VInt 95) []]"

definition OutputImageConfig_fields :: "field list" where
  "OutputImageConfig_fields =
     [Field ''format'' TStr (VStr ''jpeg'') [],
      Field ''face_crop_enabled'' TBool (VBool True) [],
      Field ''full_frame_enabled'' TBool (VBool True) [],
      Field ''face_crop_padding'' (TFloat (Some 0) (Some 1)) (VFloat (2 / 10)) [],
      Field ''resize'' (TOptional (TInt (Some 256) (Some 4096))) VNone [],
      Field ''png'' (TModel PngConfig_fields) (model_defaults PngConfig_fields) [],
      Field ''jpeg'' (TModel JpegConfig_fields) (model_defaults JpegConfig_fields) []]"

definition OutputConfig_fields :: "field list" where
  "OutputConfig_fields =
     [Field ''min_frames_per_category'' (TInt (Some 1) (Some 10)) (VInt 3) [],
      Field ''preserve_metadata'' TBool (VBool True) [],
      Field ''image'' (TModel OutputImageConfig_fields) (model_defaults OutputImageConfig_fields) []]"

definition StorageConfig_fields :: "string \<Rightarrow> field list" where
  "StorageConfig_fields user_cache_dir =
     [Field ''cache_directory'' TPath (VPath (Path_str user_cache_dir)) [],
      Field ''temp_directory'' (TOptional TPath) VNone [],
      Field ''cleanup_temp_on_success'' TBool (VBool True) [],
      Field ''cleanup_temp_on_failure'' TBool (VBool False) [],
      Field ''keep_temp'' TBool (VBool False) [],
      Field ''force_temp_cleanup'' TBool (VBool False) [],
      Field ''max_cache_size_gb'' (TFloat (Some (1 / 2)) (Some 50)) (VFloat 5) []]"

definition ProcessingConfig_fields :: "field list" where
  "ProcessingConfig_fields =
     [Field ''enable_resume'' TBool (VBool True) [],
      Field ''save_intermediate_results'' TBool (VBool True) [],
      Field ''max_processing_time_minutes'' (TOptional (TInt (Some 1) None)) VNone [],
      Field ''parallel_workers'' (TInt (Some 1) (Some 16)) (VInt 1) []]"

definition LoggingConfig_fields :: "field list" where
  "LoggingConfig_fields =
     [Field ''level'' (TEnum LogLevel_values) (VEnum ''INFO'') [],
      Field ''enable_file_logging'' TBool (VBool False) [],
      Field ''log_file'' (TOptional TPath) VNone [],
      Field ''enable_rich_console'' TBool (VBool True) [],
      Field ''enable_structured_output'' TBool (VBool True) [],
      Field ''verbose'' TBool (VBool False) []]"

definition Config_fields :: "string \<Rightarrow> field list" where
  "Config_fields user_cache_dir =
     [Field ''models'' (TModel ModelConfig_fields) (model_defaults ModelConfig_fields) [],
      Field ''frame_extraction'' (TModel FrameExtractionConfig_fields)
        (model_defaults FrameExtractionConfig_fields) [],
      Field ''quality'' (TModel QualityConfig_fields) (model_defaults QualityConfig_fields) [],
      Field ''pose_classification'' (TModel PoseClassificationConfig_fields)
        (model_defaults PoseClassificationConfig_fields) [],
      Field ''head_angle'' (TModel HeadAngleConfig_fields) (model_defaults HeadAngleConfig_fields) [],
      Field ''closeup_detection'' (TModel CloseupDetectionConfig_fields)
        (model_defaults CloseupDetectionConfig_fields) [],
      Field ''frame_selection'' (TModel FrameSelectionConfig_fields)
        (model_defaults FrameSelectionConfig_fields) [],
      Field ''output'' (TModel OutputConfig_fields) (model_defaults OutputConfig_fields) [],
      Field ''storage'' (TModel (StorageConfig_fields user_cache_dir))
        (model_defaults (StorageConfig_fields user_cache_dir)) [],
      Field ''processing'' (TModel ProcessingConfig_fields) (model_defaults ProcessingConfig_fields) [],
      Field ''logging'' (TModel LoggingConfig_fields) (model_defaults LoggingConfig_fields) []]"

section \<open>Configuration: construction, assignment, files and environment\<close>

text \<open>The exceptions the operations raise; a \<open>ValidationError\<close> lists the failing locations.\<close>

datatype error =
    FileNotFoundError
  | FileExistsError
  | NotADirectoryError
  | IsADirectoryError
  | ParseError
  | TypeError
  | ValueError string
  | ValidationError "string list list"

definition model_init :: "field list \<Rightarrow> (string \<times> pyval) list \<Rightarrow> error + pyobj" where
  "model_init model_fields kwargs =
     (case validate (TModel model_fields) (PDict kwargs) of
        Inl errors \<Rightarrow> Inl (ValidationError errors)
      | Inr self \<Rightarrow> Inr self)"

definition Config_init :: "string \<Rightarrow> (string \<times> pyval) list \<Rightarrow> error + pyobj" where
  "Config_init user_cache_dir kwargs = model_init (Config_fields user_cache_dir) kwargs"

text \<open>Attribute access, \<open>cfg.models.batch_size\<close> being the path \<open>[models, batch_size]\<close>.\<close>

fun getattr :: "pyobj \<Rightarrow> string \<Rightarrow> pyobj option" where
  "getattr (VModel data) name = map_of data name"
| "getattr v name = None"

fun getattr_path :: "pyobj \<Rightarrow> string list \<Rightarrow> pyobj option" where
  "getattr_path v [] = Some v"
| "getattr_path v (name # names) =
     (case getattr v name of None \<Rightarrow> None | Some w \<Rightarrow> getattr_path w names)"

text \<open>
  Assignment of a float to a field of a model instance. With \<open>validate_assignment\<close> the
  value is validated like a constructor argument, the validators seeing the other fields
  of the instance as \<open>info.data\<close>; without it the value is stored as it is. The flag is
  the one of the class of the instance: \<open>Config\<close> sets \<open>validate_assignment=True\<close> in its
  own \<open>model_config\<close>, the classes of its fields set no \<open>model_config\<close>.
\<close>

fun field_named :: "field list \<Rightarrow> string \<Rightarrow> field option" where
  "field_named [] name = None"
| "field_named (Field n t dflt validators # model_fields) name =
     (if n = name then Some (Field n t dflt validators) else field_named model_fields name)"

definition update_field :: "(string \<times> pyobj) list \<Rightarrow> string \<Rightarrow> pyobj \<Rightarrow> (string \<times> pyobj) list" where
  "update_field data name x = map (\<lambda>(k, v). if k = name then (k, x) else (k, v)) data"

definition setattr_float ::
  "bool \<Rightarrow> field list \<Rightarrow> (string \<times> pyobj) list \<Rightarrow> string \<Rightarrow> rat \<Rightarrow> error + (string \<times> pyobj) list" where
  "setattr_float validate_assignment model_fields data name x =
     (case field_named model_fields name of
        None \<Rightarrow> Inl (ValueError ''object has no field'')
      | Some (Field n t dflt validators) \<Rightarrow>
          if validate_assignment then
            (case validate t (PFloat x) of
               Inl es \<Rightarrow> Inl (ValidationError (map (\<lambda>loc. name # loc) es))
             | Inr y \<Rightarrow>
                 (case run_validators validators name (filter (\<lambda>(k, v). k \<noteq> name) data) y of
                    None \<Rightarrow> Inl (ValidationError [[name]])
                  | Some y' \<Rightarrow> Inr (update_field data name y')))
          else Inr (update_field data name (VFloat x)))"

text \<open>
  The file system as the configuration code sees it, on a POSIX platform: a path (given
  by its string, \<open>str(path)\<close>) that exists is a directory or a file. The text of a file is
  not modelled: a file is given by the document that the parser chosen by its extension
  reads from it (\<open>Parsed\<close>), or is \<open>Unparsable\<close> when that parser raises; and writing a
  document with \<open>yaml.safe_dump\<close> or \<open>json.dump\<close> leaves a file from which
  \<open>yaml.safe_load\<close> or \<open>json.load\<close> reads that document. Both libraries are outside the
  repository. Permissions, symbolic links and \<open>..\<close> components are not modelled either.
\<close>

datatype content = Directory | Unparsable | Parsed pyval

text \<open>
  The directories above a path, outermost first: for \<open>a/b/c.yaml\<close> they are \<open>a\<close> and
  \<open>a/b\<close>, for \<open>/a/c.yaml\<close> it is \<open>/a\<close>, for \<open>c.yaml\<close> there is none. The current directory
  and the root are not listed: they exist and are directories.
\<close>

definition path_ancestors :: "string \<Rightarrow> string list" where
  "path_ancestors s =
     (let root = (if take 2 s = ''//'' \<and> take 3 s \<noteq> ''///'' then ''//''
                  else if take 1 s = ''/'' then ''/'' else []);
          parts = path_parts s
      in map (\<lambda>k. root @ join ''/'' (take k parts)) [1..<length parts])"

text \<open>
  \<open>config_path.parent.mkdir(parents=True, exist_ok=True)\<close>, given the directories above
  \<open>config_path\<close>: the missing ones are created and the existing ones are left alone. When
  the parent itself exists and is a file, \<open>FileExistsError\<close> is raised; when a directory
  further up is a file, \<open>NotADirectoryError\<close>. Nothing has been created when it raises,
  since everything above a file exists already.
\<close>

fun make_dirs :: "(string \<rightharpoonup> content) \<Rightarrow> string list \<Rightarrow> error + (string \<rightharpoonup> content)" where
  "make_dirs fs [] = Inr fs"
| "make_dirs fs (d # ds) =
     (case fs d of
        None \<Rightarrow> make_dirs (fs(d \<mapsto> Directory)) ds
      | Some Directory \<Rightarrow> make_dirs fs ds
      | Some file \<Rightarrow> Inl (if ds = [] then FileExistsError else NotADirectoryError))"

definition from_file :: "(string \<rightharpoonup> content) \<Rightarrow> string \<Rightarrow> string \<Rightarrow> error + pyobj" where
  "from_file fs user_cache_dir config_path =
     (case fs config_path of
        None \<Rightarrow> Inl FileNotFoundError
      | Some Directory \<Rightarrow> Inl IsADirectoryError
      | Some file \<Rightarrow>
          if lower (path_suffix config_path) \<in> set [''.yaml'', ''.yml''] \<or>
             lower (path_suffix config_path) = ''.json''
          then (case file of
                  Parsed (PDict data) \<Rightarrow> Config_init user_cache_dir data
                | Parsed other \<Rightarrow> Inl TypeError
                | _ \<Rightarrow> Inl ParseError)
          else Inl (ValueError (''Unsupported config file format: '' @ path_suffix config_path)))"

text \<open>
  \<open>from_env\<close> is \<open>return cls()\<close>. \<open>Config\<close> derives from \<open>pydantic.BaseModel\<close>, whose
  constructor takes its values from the keyword arguments and the defaults; the process
  environment \<open>environ\<close> is an argument of the model to show that nothing reads it.
\<close>

definition from_env :: "(string \<rightharpoonup> string) \<Rightarrow> string \<Rightarrow> error + pyobj" where
  "from_env environ user_cache_dir = Config_init user_cache_dir []"

text \<open>
  \<open>to_file\<close> creates the directories above the path, then opens the file for writing
  before it looks at the extension, so an unsupported extension leaves an empty file
  behind. It returns the exception raised, if any, and the file system it leaves.
\<close>

definition to_file ::
  "(string \<rightharpoonup> content) \<Rightarrow> pyobj \<Rightarrow> string \<Rightarrow> error option \<times> (string \<rightharpoonup> content)" where
  "to_file fs self config_path =
     (case make_dirs fs (path_ancestors config_path) of
        Inl e \<Rightarrow> (Some e, fs)
      | Inr fs1 \<Rightarrow>
          (let data = model_dump self in
           if fs1 config_path = Some Directory then (Some IsADirectoryError, fs1)
           else if lower (path_suffix config_path) \<in> set [''.yaml'', ''.yml''] \<or>
                   lower (path_suffix config_path) = ''.json''
           then (None, fs1(config_path \<mapsto> Parsed data))
           else (Some (ValueError (''Unsupported config file format: '' @ path_suffix config_path)),
                 fs1(config_path \<mapsto> Unparsable))))"

text \<open>\<open>load_config\<close>; a \<open>Path\<close> is always true, so \<open>config_path and \<dots>\<close> tests for \<open>None\<close>.\<close>

definition load_config :: "(string \<rightharpoonup> content) \<Rightarrow> (string \<rightharpoonup> string) \<Rightarrow> string \<Rightarrow> string option \<Rightarrow> error + pyobj" where
  "load_config fs environ user_cache_dir config_path =
     (case config_path of
        Some p \<Rightarrow> if fs p \<noteq> None then from_file fs user_cache_dir p
                  else from_env environ user_cache_dir
      | None \<Rightarrow> from_env environ user_cache_dir)"

text \<open>Reading a field of the configuration an operation returned.\<close>

definition config_get :: "error + pyobj \<Rightarrow> string list \<Rightarrow> pyobj option" where
  "config_get r names = (case r of Inl e \<Rightarrow> None | Inr cfg \<Rightarrow> getattr_path cfg names)"

section \<open>Configuration: what a round trip through a file needs\<close>

text \<open>
  The predicates of this section are not code: they say when an object is a well-formed
  instance of the declared classes, so that one can say which configurations
  \<open>from_file\<close> returns unchanged after \<open>to_file\<close> has written them.

  \<open>in_range t v\<close>: the object \<open>v\<close> has the declared type \<open>t\<close> and lies within its
  bounds; for a model, it has exactly the declared fields, in order, each in range. A
  \<open>Path\<close> is held by its normalised string.
\<close>

fun in_range :: "field_type \<Rightarrow> pyobj \<Rightarrow> bool"
and fields_in_range :: "field list \<Rightarrow> (string \<times> pyobj) list \<Rightarrow> bool" where
  "in_range TStr v = (case v of VStr s \<Rightarrow> True | _ \<Rightarrow> False)"
| "in_range TBool v = (case v of VBool b \<Rightarrow> True | _ \<Rightarrow> False)"
| "in_range (TInt ge le) v = (case v of VInt i \<Rightarrow> in_bounds ge le i | _ \<Rightarrow> False)"
| "in_range (TFloat ge le) v = (case v of VFloat x \<Rightarrow> in_bounds ge le x | _ \<Rightarrow> False)"
| "in_range (TEnum members) v = (case v of VEnum s \<Rightarrow> s \<in> set members | _ \<Rightarrow> False)"
| "in_range TPath v = (case v of VPath p \<Rightarrow> Path_str p = p | _ \<Rightarrow> False)"
| "in_range (TOptional t) v = (if v = VNone then True else in_range t v)"
| "in_range (TModel model_fields) v =
     (case v of VModel data \<Rightarrow> fields_in_range model_fields data | _ \<Rightarrow> False)"
| "fields_in_range [] data = (data = [])"
| "fields_in_range (Field name t dflt validators # model_fields) data =
     (case data of
        [] \<Rightarrow> False
      | (k, v) # rest \<Rightarrow> k = name \<and> in_range t v \<and> fields_in_range model_fields rest)"

text \<open>
  \<open>conforms\<close> asks in addition that every registered validator accepts each field,
  given the fields before it; \<open>no_validators\<close> says that a type registers none.
\<close>

fun conforms :: "field_type \<Rightarrow> pyobj \<Rightarrow> bool"
and conforms_fields :: "field list \<Rightarrow> (string \<times> pyobj) list \<Rightarrow> (string \<times> pyobj) list \<Rightarrow> bool" where
  "conforms TStr v = (case v of VStr s \<Rightarrow> True | _ \<Rightarrow> False)"
| "conforms TBool v = (case v of VBool b \<Rightarrow> True | _ \<Rightarrow> False)"
| "conforms (TInt ge le) v = (case v of VInt i \<Rightarrow> in_bounds ge le i | _ \<Rightarrow> False)"
| "conforms (TFloat ge le) v = (case v of VFloat x \<Rightarrow> in_bounds ge le x | _ \<Rightarrow> False)"
| "conforms (TEnum members) v = (case v of VEnum s \<Rightarrow> s \<in> set members | _ \<Rightarrow> False)"
| "conforms TPath v = (case v of VPath p \<Rightarrow> Path_str p = p | _ \<Rightarrow> False)"
| "conforms (TOptional t) v = (if v = VNone then True else conforms t v)"
| "conforms (TModel model_fields) v =
     (case v of VModel data \<Rightarrow> conforms_fields model_fields [] data | _ \<Rightarrow> False)"
| "conforms_fields [] seen data = (data = [])"
| "conforms_fields (Field name t dflt validators # model_fields) seen data =
     (case data of
        [] \<Rightarrow> False
      | (k, v) # rest \<Rightarrow>
          k = name \<and> conforms t v \<and> run_validators validators name seen v = Some v \<and>
          conforms_fields model_fields (seen @ [(k, v)]) rest)"

fun no_validators :: "field_type \<Rightarrow> bool"
and no_validators_fields :: "field list \<Rightarrow> bool" where
  "no_validators (TModel model_fields) = no_validators_fields model_fields"
| "no_validators (TOptional t) = no_validators t"
| "no_validators TStr = True"
| "no_validators TBool = True"
| "no_validators (TInt ge le) = True"
| "no_validators (TFloat ge le) = True"
| "no_validators (TEnum members) = True"
| "no_validators TPath = True"
| "no_validators_fields [] = True"
| "no_validators_fields (Field name t dflt validators # model_fields) =
     (validators = [] \<and> no_validators t \<and> no_validators_fields model_fields)"

text \<open>The field names of a model are pairwise different, in every nested model too.\<close>

fun field_name :: "field \<Rightarrow> string" where
  "field_name (Field name t dflt validators) = name"

fun wf_type :: "field_type \<Rightarrow> bool"
and wf_fields :: "field list \<Rightarrow> bool" where
  "wf_type (TModel model_fields) = wf_fields model_fields"
| "wf_type (TOptional t) = wf_type t"
| "wf_type TStr = True"
| "wf_type TBool = True"
| "wf_type (TInt ge le) = True"
| "wf_type (TFloat ge le) = True"
| "wf_type (TEnum members) = True"
| "wf_type TPath = True"
| "wf_fields [] = True"
| "wf_fields (Field name t dflt validators # model_fields) =
     (wf_type t \<and> name \<notin> set (map field_name model_fields) \<and> wf_fields model_fields)"

text \<open>Reading a written document by keys, as a reader of the file would.\<close>

fun doc_get :: "pyval \<Rightarrow> string list \<Rightarrow> pyval option" where
  "doc_get d [] = Some d"
| "doc_get (PDict items) (name # names) =
     (case map_of items name of None \<Rightarrow> None | Some d \<Rightarrow> doc_get d names)"
| "doc_get d (name # names) = None"

text \<open>
  The default configuration with \<open>frame_selection.face_size_weight\<close> set to 0.6: what
  \<open>Config(frame_selection={"face_size_weight": 0.6})\<close> returns.
\<close>

definition heavy_face_config :: "string \<Rightarrow> pyobj" where
  "heavy_face_config user_cache_dir =
     VModel (update_field (map default_of (Config_fields user_cache_dir)) ''frame_selection''
       (VModel (update_field (map default_of FrameSelectionConfig_fields) ''face_size_weight''
          (VFloat (6 / 10)))))"

section \<open>What the format \<open>03d\<close> writes\<close>

lemma below_ten:
  "k < (10::nat) \<Longrightarrow>
   k = 0 \<or> k = 1 \<or> k = 2 \<or> k = 3 \<or> k = 4 \<or> k = 5 \<or> k = 6 \<or> k = 7 \<or> k = 8 \<or> k = 9"
  by arith

lemma digit_char_is_digit: "is_digit (digit_char d)"
proof -
  have "d mod 10 < 10" by simp
  from below_ten [OF this] show ?thesis
    unfolding is_digit_def digit_char_def by (elim disjE) simp_all
qed

lemma digit_val_digit_char: "digit_val (digit_char d) = d mod 10"
proof -
  have "d mod 10 < 10" by simp
  from below_ten [OF this] show ?thesis
    unfolding digit_val_def digit_char_def by (elim disjE) simp_all
qed

lemma decode_nat_snoc: "decode_nat (s @ [c]) = 10 * decode_nat s + digit_val c"
  by (simp add: decode_nat_def)

lemma decode_str_nat: "decode_nat (str_nat n) = n"
proof (induction n rule: str_nat.induct)
  case (1 n)
  show ?case
  proof (cases "n < 10")
    case True
    then show ?thesis
      by (subst str_nat.simps) (simp add: decode_nat_def digit_val_digit_char)
  next
    case False
    with 1 have "decode_nat (str_nat (n div 10)) = n div 10" by simp
    with False show ?thesis
      by (subst str_nat.simps) (simp add: decode_nat_snoc digit_val_digit_char)
  qed
qed

lemma str_nat_digits: "list_all is_digit (str_nat n)"
proof (induction n rule: str_nat.induct)
  case (1 n)
  then show ?case
    by (subst str_nat.simps) (simp add: digit_char_is_digit)
qed

lemma str_nat_nonempty: "str_nat n \<noteq> []"
  by (subst str_nat.simps) simp

lemma decode_nat_zeros: "decode_nat (replicate k (CHR ''0'') @ s) = decode_nat s"
proof -
  have z: "digit_val (CHR ''0'') = 0" by (simp add: digit_val_def)
  have "foldl (\<lambda>acc c. 10 * acc + digit_val c) 0 (replicate k (CHR ''0'')) = 0"
    by (induction k) (simp_all add: z)
  then show ?thesis by (simp add: decode_nat_def)
qed

lemma decode_zfill: "decode_nat (zfill w (str_nat n)) = n"
  by (simp add: zfill_def decode_nat_zeros decode_str_nat)

lemma zfill_digits: "list_all is_digit (zfill w (str_nat n))"
proof -
  have z: "is_digit (CHR ''0'')" by (simp add: is_digit_def)
  have "list_all is_digit (replicate k (CHR ''0''))" for k
    by (induction k) (simp_all add: z)
  then show ?thesis by (simp add: zfill_def str_nat_digits)
qed

lemma zfill_nonempty: "zfill w (str_nat n) \<noteq> []"
  by (simp add: zfill_def str_nat_nonempty)

lemma hd_zfill_not_minus: "hd (zfill w (str_nat n)) \<noteq> CHR ''-''"
proof -
  have "zfill w (str_nat n) \<noteq> []" by (rule zfill_nonempty)
  then have "hd (zfill w (str_nat n)) \<in> set (zfill w (str_nat n))" by simp
  with zfill_digits [of w n] have d: "is_digit (hd (zfill w (str_nat n)))"
    by (simp add: list_all_iff)
  have nd: "\<not> is_digit (CHR ''-'')" by (simp add: is_digit_def)
  show ?thesis
  proof
    assume "hd (zfill w (str_nat n)) = CHR ''-''"
    with d have "is_digit (CHR ''-'')" by simp
    with nd show False by simp
  qed
qed

lemma fmt03d_inj: "fmt03d a = fmt03d b \<Longrightarrow> a = b"
proof -
  assume eq: "fmt03d a = fmt03d b"
  consider "a < 0" "b < 0" | "a < 0" "\<not> b < 0" | "\<not> a < 0" "b < 0" | "\<not> a < 0" "\<not> b < 0" by blast
  then show ?thesis
  proof cases
    case 1
    with eq have "zfill 2 (str_nat (nat (- a))) = zfill 2 (str_nat (nat (- b)))"
      by (simp add: fmt03d_def)
    then have "decode_nat (zfill 2 (str_nat (nat (- a)))) = decode_nat (zfill 2 (str_nat (nat (- b))))"
      by simp
    then have "nat (- a) = nat (- b)" by (simp only: decode_zfill)
    with 1 show ?thesis by simp
  next
    case 2
    with eq have "CHR ''-'' # zfill 2 (str_nat (nat (- a))) = zfill 3 (str_nat (nat b))"
      by (simp add: fmt03d_def)
    then have "hd (zfill 3 (str_nat (nat b))) = CHR ''-''" by (metis list.sel(1))
    with hd_zfill_not_minus show ?thesis by blast
  next
    case 3
    with eq have "zfill 3 (str_nat (nat a)) = CHR ''-'' # zfill 2 (str_nat (nat (- b)))"
      by (simp add: fmt03d_def)
    then have "hd (zfill 3 (str_nat (nat a))) = CHR ''-''" by (metis list.sel(1))
    with hd_zfill_not_minus show ?thesis by blast
  next
    case 4
    with eq have "zfill 3 (str_nat (nat a)) = zfill 3 (str_nat (nat b))"
      by (simp add: fmt03d_def)
    then have "decode_nat (zfill 3 (str_nat (nat a))) = decode_nat (zfill 3 (str_nat (nat b)))"
      by simp
    then have "nat a = nat b" by (simp only: decode_zfill)
    with 4 show ?thesis by simp
  qed
qed

lemma sequenced_name_inj: "inj (sequenced_name st ex)"
  by (rule injI) (auto simp: sequenced_name_def dest: fmt03d_inj)

lemma used_bound: "\<exists>B. \<forall>k. sequenced_name st ex k |\<in>| used \<longrightarrow> k < B"
proof -
  let ?S = "sequenced_name st ex -` fset used"
  have fin: "finite ?S"
    by (rule finite_vimageI [OF _ sequenced_name_inj]) simp
  have "k < Max ?S + 1" if "sequenced_name st ex k |\<in>| used" for k
  proof -
    from that have "k \<in> ?S" by simp
    with fin have "k \<le> Max ?S" by (rule Max_ge)
    then show ?thesis by simp
  qed
  then show ?thesis by blast
qed

lemma unique_loop_bounded:
  "(\<forall>k. seq + int m \<le> k \<longrightarrow> sequenced_name st ex k |\<notin>| used) \<Longrightarrow>
   \<exists>k. unique_loop used st ex seq = Some (sequenced_name st ex k, k) \<and> seq \<le> k \<and>
       sequenced_name st ex k |\<notin>| used"
proof (induction m arbitrary: seq)
  case 0
  then have "sequenced_name st ex seq |\<notin>| used" by simp
  then have "unique_loop used st ex seq = Some (sequenced_name st ex seq, seq)"
    by (subst unique_loop.simps) simp
  with \<open>sequenced_name st ex seq |\<notin>| used\<close> show ?case by auto
next
  case (Suc m)
  show ?case
  proof (cases "sequenced_name st ex seq |\<notin>| used")
    case True
    then have "unique_loop used st ex seq = Some (sequenced_name st ex seq, seq)"
      by (subst unique_loop.simps) simp
    with True show ?thesis by auto
  next
    case False
    from Suc.prems have "\<forall>k. (seq + 1) + int m \<le> k \<longrightarrow> sequenced_name st ex k |\<notin>| used"
      by simp
    from Suc.IH [OF this] obtain k where
      k: "unique_loop used st ex (seq + 1) = Some (sequenced_name st ex k, k)"
         "seq + 1 \<le> k" "sequenced_name st ex k |\<notin>| used" by blast
    from False have "unique_loop used st ex seq = unique_loop used st ex (seq + 1)"
      by (subst unique_loop.simps) simp
    with k show ?thesis by auto
  qed
qed

lemma unique_loop_returns:
  "\<exists>k. unique_loop used st ex seq = Some (sequenced_name st ex k, k) \<and> seq \<le> k \<and>
       sequenced_name st ex k |\<notin>| used"
proof -
  obtain B where B: "\<forall>k. sequenced_name st ex k |\<in>| used \<longrightarrow> k < B"
    using used_bound by blast
  have "\<forall>k. seq + int (nat (B - seq)) \<le> k \<longrightarrow> sequenced_name st ex k |\<notin>| used"
  proof (intro allI impI)
    fix k assume "seq + int (nat (B - seq)) \<le> k"
    then have "B \<le> k" by linarith
    with B show "sequenced_name st ex k |\<notin>| used" by force
  qed
  then show ?thesis by (rule unique_loop_bounded)
qed

section \<open>Collision resolution\<close>

lemma unique_loop_hit:
  "sequenced_name st ex k |\<notin>| used \<Longrightarrow> unique_loop used st ex k = Some (sequenced_name st ex k, k)"
  by (subst unique_loop.simps) simp

lemma unique_loop_miss:
  "sequenced_name st ex k |\<in>| used \<Longrightarrow> unique_loop used st ex k = unique_loop used st ex (k + 1)"
  by (subst unique_loop.simps) simp

lemma ensure_unique_fresh:
  "b |\<notin>| used_filenames nc \<Longrightarrow>
   ensure_unique_filename nc b = Some (b, nc\<lparr>used_filenames := finsert b (used_filenames nc)\<rparr>)"
  by (simp add: ensure_unique_filename_def)

lemma ensure_unique_collision:
  assumes "b |\<in>| used_filenames nc"
  shows "\<exists>k. counter_of (sequence_counters nc) (path_stem b) < k \<and>
           sequenced_name (path_stem b) (path_suffix b) k |\<notin>| used_filenames nc \<and>
           ensure_unique_filename nc b =
             Some (sequenced_name (path_stem b) (path_suffix b) k,
               nc\<lparr>used_filenames := finsert (sequenced_name (path_stem b) (path_suffix b) k) (used_filenames nc),
                  sequence_counters := (sequence_counters nc)(path_stem b \<mapsto> k)\<rparr>)"
proof -
  let ?seq = "counter_of (sequence_counters nc) (path_stem b) + 1"
  from unique_loop_returns [of "used_filenames nc" "path_stem b" "path_suffix b" ?seq]
  obtain k where k:
    "unique_loop (used_filenames nc) (path_stem b) (path_suffix b) ?seq =
       Some (sequenced_name (path_stem b) (path_suffix b) k, k)"
    "?seq \<le> k" "sequenced_name (path_stem b) (path_suffix b) k |\<notin>| used_filenames nc"
    by blast
  from assms k(1) have
    "ensure_unique_filename nc b =
       Some (sequenced_name (path_stem b) (path_suffix b) k,
         nc\<lparr>used_filenames := finsert (sequenced_name (path_stem b) (path_suffix b) k) (used_filenames nc),
            sequence_counters := (sequence_counters nc)(path_stem b \<mapsto> k)\<rparr>)"
    by (simp add: ensure_unique_filename_def Let_def)
  with k(2,3) show ?thesis by (intro exI [of _ k]) simp
qed

lemma ensure_unique_returns: "\<exists>name nc'. ensure_unique_filename nc b = Some (name, nc')"
proof (cases "b |\<in>| used_filenames nc")
  case True
  from ensure_unique_collision [OF this] show ?thesis by blast
next
  case False
  then show ?thesis by (simp add: ensure_unique_fresh)
qed

lemma counter_of_upd:
  "counter_of (m(k \<mapsto> v)) st = (if st = k then v else counter_of m st)"
  by (simp add: counter_of_def)

lemma ensure_unique_step:
  assumes "ensure_unique_filename nc b = Some (name, nc')"
  shows "name |\<notin>| used_filenames nc"
    and "used_filenames nc' = finsert name (used_filenames nc)"
    and "video_base_name nc' = video_base_name nc"
    and "counter_of (sequence_counters nc) st \<le> counter_of (sequence_counters nc') st"
proof -
  have "name |\<notin>| used_filenames nc \<and> used_filenames nc' = finsert name (used_filenames nc) \<and>
        video_base_name nc' = video_base_name nc \<and>
        counter_of (sequence_counters nc) st \<le> counter_of (sequence_counters nc') st"
  proof (cases "b |\<in>| used_filenames nc")
    case True
    from ensure_unique_collision [OF this] assms show ?thesis
      by (auto simp: counter_of_upd)
  next
    case False
    with assms show ?thesis by (auto simp: ensure_unique_fresh)
  qed
  then show "name |\<notin>| used_filenames nc"
    and "used_filenames nc' = finsert name (used_filenames nc)"
    and "video_base_name nc' = video_base_name nc"
    and "counter_of (sequence_counters nc) st \<le> counter_of (sequence_counters nc') st"
    by simp_all
qed

lemma issue_eq: "issue nc c = ensure_unique_filename nc (base_filename_of nc c)"
  by (cases c) (simp_all add: get_full_frame_filename_def get_face_crop_filename_def)

lemma issue_all_spec:
  "issue_all nc cs = Some (names, nc') \<Longrightarrow>
   distinct names \<and> (\<forall>n \<in> set names. n |\<notin>| used_filenames nc) \<and>
   fset (used_filenames nc') = fset (used_filenames nc) \<union> set names \<and>
   video_base_name nc' = video_base_name nc \<and>
   (\<forall>st. counter_of (sequence_counters nc) st \<le> counter_of (sequence_counters nc') st)"
proof (induction cs arbitrary: nc names)
  case Nil
  then show ?case by simp
next
  case (Cons c cs)
  from Cons.prems obtain name nc1 ns where
    s1: "issue nc c = Some (name, nc1)" and
    s2: "issue_all nc1 cs = Some (ns, nc')" and
    nm: "names = name # ns"
    by (auto split: option.splits)
  from s1 have e: "ensure_unique_filename nc (base_filename_of nc c) = Some (name, nc1)"
    by (simp add: issue_eq)
  note st = ensure_unique_step [OF e]
  note ih = Cons.IH [OF s2]
  have d: "distinct names"
    using ih st(2) nm by auto
  have f: "\<forall>n \<in> set names. n |\<notin>| used_filenames nc"
    using ih st(1,2) nm by auto
  have u: "fset (used_filenames nc') = fset (used_filenames nc) \<union> set names"
    using ih st(2) nm by auto
  have b: "video_base_name nc' = video_base_name nc"
    using ih st(3) by simp
  have m: "\<forall>s. counter_of (sequence_counters nc) s \<le> counter_of (sequence_counters nc') s"
  proof
    fix s
    from st(4) [of s] ih show "counter_of (sequence_counters nc) s \<le> counter_of (sequence_counters nc') s"
      by (meson order_trans)
  qed
  from d f u b m show ?case by blast
qed

lemma issue_all_returns: "\<exists>names nc'. issue_all nc cs = Some (names, nc')"
proof (induction cs arbitrary: nc)
  case Nil
  then show ?case by simp
next
  case (Cons c cs)
  from ensure_unique_returns obtain name nc1 where "issue nc c = Some (name, nc1)"
    unfolding issue_eq by blast
  moreover from Cons.IH obtain ns nc2 where "issue_all nc1 cs = Some (ns, nc2)" by blast
  ultimately show ?case by simp
qed

section \<open>The example calls, evaluated\<close>

lemma replicate_small:
  "replicate 1 c = [c]" "replicate 2 c = [c, c]" "replicate 3 c = [c, c, c]"
  by (simp_all add: numeral_2_eq_2 numeral_3_eq_3)

lemmas fmt03d_eval = fmt03d_def zfill_def str_nat.simps digit_char_def replicate_small

lemma fmt03d_1: "fmt03d 1 = ''001''"
  by (simp add: fmt03d_eval)

lemma fmt03d_2: "fmt03d 2 = ''002''"
  by (simp add: fmt03d_eval)

lemma front_direction: "get_head_direction front_frame = ''front''"
  by (simp add: front_frame_def get_head_direction_def get_best_head_pose_def
      lower_def replace_space_def char_lower_def)

lemma front_shot: "get_shot_type front_frame = []"
  by (simp add: front_frame_def get_shot_type_def)

lemma front_base:
  "video_base_name nc = ''clip01'' \<Longrightarrow> get_head_direction frame = ''front'' \<Longrightarrow>
   get_shot_type frame = [] \<Longrightarrow>
   full_frame_base_filename nc frame ''standing'' 1 ''jpg'' = ''clip01_standing_front_001.jpg''"
  by (simp add: full_frame_base_filename_def fmt03d_1)

lemma front_stem: "path_stem ''clip01_standing_front_001.jpg'' = ''clip01_standing_front_001''"
  by (simp add: path_stem_def path_name_def path_parts_def rfind_def)

lemma front_suffix: "path_suffix ''clip01_standing_front_001.jpg'' = ''.jpg''"
  by (simp add: path_suffix_def path_name_def path_parts_def rfind_def)

lemma front_first:
  "get_head_direction frame = ''front'' \<Longrightarrow> get_shot_type frame = [] \<Longrightarrow>
   get_full_frame_filename (init_naming ''clip01'' outdir) frame ''standing'' 1 ''jpg'' =
   Some (''clip01_standing_front_001.jpg'',
     \<lparr>video_base_name = ''clip01'', output_directory = outdir,
      used_filenames = {|''clip01_standing_front_001.jpg''|}, sequence_counters = Map.empty\<rparr>)"
  by (simp add: get_full_frame_filename_def front_base init_naming_def ensure_unique_filename_def)

lemma front_second:
  "get_head_direction frame = ''front'' \<Longrightarrow> get_shot_type frame = [] \<Longrightarrow>
   get_full_frame_filename
     \<lparr>video_base_name = ''clip01'', output_directory = outdir,
      used_filenames = {|''clip01_standing_front_001.jpg''|}, sequence_counters = Map.empty\<rparr>
     frame ''standing'' 1 ''jpg'' =
   Some (''clip01_standing_front_001_001.jpg'',
     \<lparr>video_base_name = ''clip01'', output_directory = outdir,
      used_filenames = {|''clip01_standing_front_001_001.jpg'', ''clip01_standing_front_001.jpg''|},
      sequence_counters = [''clip01_standing_front_001'' \<mapsto> 1]\<rparr>)"
  by (simp add: get_full_frame_filename_def front_base ensure_unique_filename_def
      front_stem front_suffix counter_of_def unique_loop_hit sequenced_name_def fmt03d_1)

lemma front_third:
  "get_head_direction frame = ''front'' \<Longrightarrow> get_shot_type frame = [] \<Longrightarrow>
   get_full_frame_filename
     \<lparr>video_base_name = ''clip01'', output_directory = outdir,
      used_filenames = {|''clip01_standing_front_001_001.jpg'', ''clip01_standing_front_001.jpg''|},
      sequence_counters = [''clip01_standing_front_001'' \<mapsto> 1]\<rparr>
     frame ''standing'' 1 ''jpg'' =
   Some (''clip01_standing_front_001_002.jpg'',
     \<lparr>video_base_name = ''clip01'', output_directory = outdir,
      used_filenames = {|''clip01_standing_front_001_002.jpg'', ''clip01_standing_front_001_001.jpg'',
         ''clip01_standing_front_001.jpg''|},
      sequence_counters = [''clip01_standing_front_001'' \<mapsto> 2]\<rparr>)"
  by (simp add: get_full_frame_filename_def front_base ensure_unique_filename_def
      front_stem front_suffix counter_of_def unique_loop_hit sequenced_name_def fmt03d_2)

lemma front_thrice:
  "get_head_direction frame = ''front'' \<Longrightarrow> get_shot_type frame = [] \<Longrightarrow>
   issue_all (init_naming ''clip01'' outdir)
     [FullFrame frame ''standing'' 1 ''jpg'', FullFrame frame ''standing'' 1 ''jpg'',
      FullFrame frame ''standing'' 1 ''jpg''] =
   Some ([''clip01_standing_front_001.jpg'', ''clip01_standing_front_001_001.jpg'',
          ''clip01_standing_front_001_002.jpg''],
     \<lparr>video_base_name = ''clip01'', output_directory = outdir,
      used_filenames = {|''clip01_standing_front_001_002.jpg'', ''clip01_standing_front_001_001.jpg'',
         ''clip01_standing_front_001.jpg''|},
      sequence_counters = [''clip01_standing_front_001'' \<mapsto> 2]\<rparr>)"
  by (simp add: front_first front_second front_third)

lemma issue_step:
  assumes "issue nc c = Some (name, nc')"
  shows "if base_filename_of nc c |\<notin>| used_filenames nc
         then name = base_filename_of nc c \<and> sequence_counters nc' = sequence_counters nc
         else \<exists>k. counter_of (sequence_counters nc) (path_stem (base_filename_of nc c)) < k \<and>
                name = sequenced_name (path_stem (base_filename_of nc c))
                         (path_suffix (base_filename_of nc c)) k \<and>
                sequence_counters nc' =
                  (sequence_counters nc)(path_stem (base_filename_of nc c) \<mapsto> k)"
proof (cases "base_filename_of nc c |\<in>| used_filenames nc")
  case True
  from ensure_unique_collision [OF this] assms True show ?thesis
    unfolding issue_eq by auto
next
  case False
  with assms show ?thesis
    unfolding issue_eq by (auto simp: ensure_unique_fresh)
qed

section \<open>Sequence numbers over a sequence of calls\<close>

lemma base_filename_of_cong:
  "video_base_name nc1 = video_base_name nc \<Longrightarrow> base_filename_of nc1 c = base_filename_of nc c"
  by (cases c) (simp_all add: full_frame_base_filename_def face_crop_base_filename_def)

lemma issue_all_Cons:
  assumes "issue_all nc (c # cs) = Some (names, nc')"
  obtains name nc1 ns where "issue nc c = Some (name, nc1)"
    and "issue_all nc1 cs = Some (ns, nc')" and "names = name # ns"
  using assms by (auto split: option.splits)

lemma issue_all_length: "issue_all nc cs = Some (names, nc') \<Longrightarrow> length names = length cs"
proof (induction cs arbitrary: nc names)
  case Nil
  then show ?case by simp
next
  case (Cons c cs)
  from Cons.prems obtain name nc1 ns where
    "issue_all nc1 cs = Some (ns, nc')" and "names = name # ns"
    by (rule issue_all_Cons)
  with Cons.IH show ?case by simp
qed

lemma issue_all_collision_number:
  assumes "issue_all nc cs = Some (names, nc')" and "j < length cs"
    and "names ! j \<noteq> base_filename_of nc (cs ! j)"
  shows "\<exists>n. counter_of (sequence_counters nc) (path_stem (base_filename_of nc (cs ! j))) < n \<and>
           n \<le> counter_of (sequence_counters nc') (path_stem (base_filename_of nc (cs ! j))) \<and>
           names ! j = sequenced_name (path_stem (base_filename_of nc (cs ! j)))
                         (path_suffix (base_filename_of nc (cs ! j))) n"
  using assms
proof (induction cs arbitrary: nc names j)
  case Nil
  then show ?case by simp
next
  case (Cons c cs)
  from Cons.prems(1) obtain name nc1 ns where
    s1: "issue nc c = Some (name, nc1)" and
    s2: "issue_all nc1 cs = Some (ns, nc')" and
    nm: "names = name # ns"
    by (rule issue_all_Cons)
  from s1 have e: "ensure_unique_filename nc (base_filename_of nc c) = Some (name, nc1)"
    by (simp add: issue_eq)
  note st = ensure_unique_step [OF e]
  have bc: "base_filename_of nc1 x = base_filename_of nc x" for x
    by (rule base_filename_of_cong [OF st(3)])
  from issue_all_spec [OF s2]
  have mono: "counter_of (sequence_counters nc1) s \<le> counter_of (sequence_counters nc') s" for s
    by blast
  show ?case
  proof (cases j)
    case 0
    let ?b = "base_filename_of nc c"
    from Cons.prems(3) 0 nm have ne: "name \<noteq> ?b" by simp
    from issue_step [OF s1] ne obtain k where
      k1: "counter_of (sequence_counters nc) (path_stem ?b) < k" and
      k2: "name = sequenced_name (path_stem ?b) (path_suffix ?b) k" and
      k3: "sequence_counters nc1 = (sequence_counters nc)(path_stem ?b \<mapsto> k)"
      by (auto split: if_splits)
    from k3 have "counter_of (sequence_counters nc1) (path_stem ?b) = k"
      by (simp add: counter_of_def)
    with mono [of "path_stem ?b"] have k4: "k \<le> counter_of (sequence_counters nc') (path_stem ?b)"
      by simp
    from k1 k2 k4 0 nm show ?thesis by auto
  next
    case (Suc j')
    from Cons.prems(2) Suc have j: "j' < length cs" by simp
    from Cons.prems(3) Suc nm have ne: "ns ! j' \<noteq> base_filename_of nc1 (cs ! j')"
      by (simp add: bc)
    from Cons.IH [OF s2 j ne] obtain n where
      n1: "counter_of (sequence_counters nc1) (path_stem (base_filename_of nc1 (cs ! j'))) < n" and
      n2: "n \<le> counter_of (sequence_counters nc') (path_stem (base_filename_of nc1 (cs ! j')))" and
      n3: "ns ! j' = sequenced_name (path_stem (base_filename_of nc1 (cs ! j')))
                         (path_suffix (base_filename_of nc1 (cs ! j'))) n"
      by blast
    from st(4) [of "path_stem (base_filename_of nc (cs ! j'))"] n1
    have "counter_of (sequence_counters nc) (path_stem (base_filename_of nc (cs ! j'))) < n"
      by (simp add: bc)
    with n2 n3 Suc nm show ?thesis by (auto simp: bc)
  qed
qed

lemma issue_all_numbers_increase:
  assumes "issue_all nc cs = Some (names, nc')" and "i < j" and "j < length cs"
    and "names ! i \<noteq> base_filename_of nc (cs ! i)"
    and "names ! j \<noteq> base_filename_of nc (cs ! j)"
    and "path_stem (base_filename_of nc (cs ! i)) = path_stem (base_filename_of nc (cs ! j))"
  shows "\<exists>m n. m < n \<and>
           n \<le> counter_of (sequence_counters nc') (path_stem (base_filename_of nc (cs ! j))) \<and>
           names ! i = sequenced_name (path_stem (base_filename_of nc (cs ! i)))
                         (path_suffix (base_filename_of nc (cs ! i))) m \<and>
           names ! j = sequenced_name (path_stem (base_filename_of nc (cs ! j)))
                         (path_suffix (base_filename_of nc (cs ! j))) n"
  using assms
proof (induction cs arbitrary: nc names i j)
  case Nil
  then show ?case by simp
next
  case (Cons c cs)
  from Cons.prems(1) obtain name nc1 ns where
    s1: "issue nc c = Some (name, nc1)" and
    s2: "issue_all nc1 cs = Some (ns, nc')" and
    nm: "names = name # ns"
    by (rule issue_all_Cons)
  from s1 have e: "ensure_unique_filename nc (base_filename_of nc c) = Some (name, nc1)"
    by (simp add: issue_eq)
  note st = ensure_unique_step [OF e]
  have bc: "base_filename_of nc1 x = base_filename_of nc x" for x
    by (rule base_filename_of_cong [OF st(3)])
  from Cons.prems(2) obtain j' where j: "j = Suc j'" by (cases j) simp_all
  from Cons.prems(3) j have jl: "j' < length cs" by simp
  from Cons.prems(5) j nm have nej: "ns ! j' \<noteq> base_filename_of nc1 (cs ! j')"
    by (simp add: bc)
  show ?case
  proof (cases i)
    case 0
    let ?b = "base_filename_of nc c"
    from Cons.prems(4) 0 nm have ne: "name \<noteq> ?b" by simp
    from issue_step [OF s1] ne obtain k where
      k2: "name = sequenced_name (path_stem ?b) (path_suffix ?b) k" and
      k3: "sequence_counters nc1 = (sequence_counters nc)(path_stem ?b \<mapsto> k)"
      by (auto split: if_splits)
    from k3 have kc: "counter_of (sequence_counters nc1) (path_stem ?b) = k"
      by (simp add: counter_of_def)
    from Cons.prems(6) 0 j have same: "path_stem (base_filename_of nc1 (cs ! j')) = path_stem ?b"
      by (simp add: bc)
    from issue_all_collision_number [OF s2 jl nej] obtain n where
      n1: "counter_of (sequence_counters nc1) (path_stem (base_filename_of nc1 (cs ! j'))) < n" and
      n2: "n \<le> counter_of (sequence_counters nc') (path_stem (base_filename_of nc1 (cs ! j')))" and
      n3: "ns ! j' = sequenced_name (path_stem (base_filename_of nc1 (cs ! j')))
                         (path_suffix (base_filename_of nc1 (cs ! j'))) n"
      by blast
    from n1 same kc have "k < n" by simp
    with n2 n3 k2 0 j nm show ?thesis by (auto simp: bc)
  next
    case (Suc i')
    from Cons.prems(2) Suc j have ij: "i' < j'" by simp
    from Cons.prems(4) Suc nm have nei: "ns ! i' \<noteq> base_filename_of nc1 (cs ! i')"
      by (simp add: bc)
    from Cons.prems(6) Suc j
    have same: "path_stem (base_filename_of nc1 (cs ! i')) = path_stem (base_filename_of nc1 (cs ! j'))"
      by (simp add: bc)
    from Cons.IH [OF s2 ij jl nei nej same] Suc j nm show ?thesis
      by (auto simp: bc)
  qed
qed

lemma face_x_base:
  "video_base_name nc = ''a'' \<Longrightarrow>
   face_crop_base_filename nc ''x'' 1 extension = ''a_face_x_001.'' @ extension"
  by (simp add: face_crop_base_filename_def fmt03d_1)

lemma face_x_stem_jpg: "path_stem ''a_face_x_001.jpg'' = ''a_face_x_001''"
  by (simp add: path_stem_def path_name_def path_parts_def rfind_def)

lemma face_x_suffix_jpg: "path_suffix ''a_face_x_001.jpg'' = ''.jpg''"
  by (simp add: path_suffix_def path_name_def path_parts_def rfind_def)

lemma face_x_stem_png: "path_stem ''a_face_x_001.png'' = ''a_face_x_001''"
  by (simp add: path_stem_def path_name_def path_parts_def rfind_def)

lemma face_x_suffix_png: "path_suffix ''a_face_x_001.png'' = ''.png''"
  by (simp add: path_suffix_def path_name_def path_parts_def rfind_def)

lemma face_x_first:
  "get_face_crop_filename (init_naming ''a'' outdir) frame ''x'' 1 ''jpg'' =
   Some (''a_face_x_001.jpg'',
     \<lparr>video_base_name = ''a'', output_directory = outdir,
      used_filenames = {|''a_face_x_001.jpg''|}, sequence_counters = Map.empty\<rparr>)"
  by (simp add: get_face_crop_filename_def face_x_base init_naming_def ensure_unique_filename_def)

lemma face_x_second:
  "get_face_crop_filename
     \<lparr>video_base_name = ''a'', output_directory = outdir,
      used_filenames = {|''a_face_x_001.jpg''|}, sequence_counters = Map.empty\<rparr>
     frame ''x'' 1 ''jpg'' =
   Some (''a_face_x_001_001.jpg'',
     \<lparr>video_base_name = ''a'', output_directory = outdir,
      used_filenames = {|''a_face_x_001_001.jpg'', ''a_face_x_001.jpg''|},
      sequence_counters = [''a_face_x_001'' \<mapsto> 1]\<rparr>)"
  by (simp add: get_face_crop_filename_def face_x_base ensure_unique_filename_def
      face_x_stem_jpg face_x_suffix_jpg counter_of_def unique_loop_hit sequenced_name_def fmt03d_1)

lemma face_x_third:
  "get_face_crop_filename
     \<lparr>video_base_name = ''a'', output_directory = outdir,
      used_filenames = {|''a_face_x_001_001.jpg'', ''a_face_x_001.jpg''|},
      sequence_counters = [''a_face_x_001'' \<mapsto> 1]\<rparr>
     frame ''x'' 1 ''png'' =
   Some (''a_face_x_001.png'',
     \<lparr>video_base_name = ''a'', output_directory = outdir,
      used_filenames = {|''a_face_x_001.png'', ''a_face_x_001_001.jpg'', ''a_face_x_001.jpg''|},
      sequence_counters = [''a_face_x_001'' \<mapsto> 1]\<rparr>)"
  by (simp add: get_face_crop_filename_def face_x_base ensure_unique_filename_def)

lemma face_x_fourth:
  "get_face_crop_filename
     \<lparr>video_base_name = ''a'', output_directory = outdir,
      used_filenames = {|''a_face_x_001.png'', ''a_face_x_001_001.jpg'', ''a_face_x_001.jpg''|},
      sequence_counters = [''a_face_x_001'' \<mapsto> 1]\<rparr>
     frame ''x'' 1 ''png'' =
   Some (''a_face_x_001_002.png'',
     \<lparr>video_base_name = ''a'', output_directory = outdir,
      used_filenames = {|''a_face_x_001_002.png'', ''a_face_x_001.png'', ''a_face_x_001_001.jpg'',
         ''a_face_x_001.jpg''|},
      sequence_counters = [''a_face_x_001'' \<mapsto> 2]\<rparr>)"
  by (simp add: get_face_crop_filename_def face_x_base ensure_unique_filename_def
      face_x_stem_png face_x_suffix_png counter_of_def unique_loop_hit sequenced_name_def fmt03d_2)

lemma face_x_four_calls:
  "issue_all (init_naming ''a'' outdir)
     [FaceCrop frame ''x'' 1 ''jpg'', FaceCrop frame ''x'' 1 ''jpg'',
      FaceCrop frame ''x'' 1 ''png'', FaceCrop frame ''x'' 1 ''png''] =
   Some ([''a_face_x_001.jpg'', ''a_face_x_001_001.jpg'', ''a_face_x_001.png'',
          ''a_face_x_001_002.png''],
     \<lparr>video_base_name = ''a'', output_directory = outdir,
      used_filenames = {|''a_face_x_001_002.png'', ''a_face_x_001.png'', ''a_face_x_001_001.jpg'',
         ''a_face_x_001.jpg''|},
      sequence_counters = [''a_face_x_001'' \<mapsto> 2]\<rparr>)"
  by (simp add: face_x_first face_x_second face_x_third face_x_fourth)

section \<open>File name validation and the shape of the candidate names\<close>

lemma startswith_iff: "startswith s p \<longleftrightarrow> (\<exists>r. s = p @ r)"
proof
  assume "startswith s p"
  then have "s = p @ drop (length p) s"
    unfolding startswith_def by (metis append_take_drop_id)
  then show "\<exists>r. s = p @ r" ..
next
  assume "\<exists>r. s = p @ r"
  then show "startswith s p" by (auto simp: startswith_def)
qed

lemma validate_filename_iff:
  "validate_filename nc filename \<longleftrightarrow>
     filename \<noteq> [] \<and>
     set filename \<inter> {CHR ''<'', CHR ''>'', CHR '':'', CHR 0x22, CHR ''/'', CHR 0x5C,
                      CHR ''|'', CHR ''?'', CHR ''*''} = {} \<and>
     length filename \<le> 255 \<and>
     (\<exists>rest. filename = video_base_name nc @ rest)"
  unfolding validate_filename_def invalid_chars_def startswith_iff
  by (auto simp: list_ex_iff)

lemma validate_examples:
  "video_base_name nc = ''clip01'' \<Longrightarrow> \<not> validate_filename nc ''../etc/passwd''"
  "video_base_name nc = ''clip01'' \<Longrightarrow> validate_filename nc ''clip01_standing_front_001.jpg''"
  by (simp_all add: validate_filename_def invalid_chars_def startswith_def)

lemma str_nat_length_3: "n < 1000 \<Longrightarrow> length (str_nat n) \<le> 3"
proof -
  assume n: "n < 1000"
  have a: "n div 10 < 100" using n by simp
  have b: "n div 10 div 10 < 10" using n by simp
  show ?thesis
    apply (subst str_nat.simps)
    apply (subst str_nat.simps [of "n div 10"])
    apply (subst str_nat.simps [of "n div 10 div 10"])
    using b by simp
qed

lemma fmt03d_nonneg:
  assumes "0 \<le> rank"
  shows "3 \<le> length (fmt03d rank)" and "list_all is_digit (fmt03d rank)"
    and "int (decode_nat (fmt03d rank)) = rank"
    and "rank < 1000 \<Longrightarrow> length (fmt03d rank) = 3"
proof -
  from assms have f: "fmt03d rank = zfill 3 (str_nat (nat rank))"
    by (simp add: fmt03d_def)
  show "3 \<le> length (fmt03d rank)" unfolding f by (simp add: zfill_def)
  show "list_all is_digit (fmt03d rank)" unfolding f by (rule zfill_digits)
  show "int (decode_nat (fmt03d rank)) = rank" unfolding f using assms by (simp add: decode_zfill)
  assume "rank < 1000"
  with assms have "nat rank < 1000" by simp
  from str_nat_length_3 [OF this] show "length (fmt03d rank) = 3"
    unfolding f by (simp add: zfill_def)
qed

lemma fmt03d_nonempty: "fmt03d rank \<noteq> []"
  by (simp add: fmt03d_def zfill_nonempty)

lemma face_crop_base_concat:
  "face_crop_base_filename nc head_angle rank extension =
   video_base_name nc @ ''_face_'' @ head_angle @ ''_'' @ fmt03d rank @ ''.'' @ extension"
  by (simp add: face_crop_base_filename_def)

lemma full_frame_base_concat:
  "full_frame_base_filename nc frame category rank extension =
   (if video_base_name nc = [] then [] else video_base_name nc @ ''_'') @
   (if category = [] then [] else category @ ''_'') @
   (if get_head_direction frame = [] then [] else get_head_direction frame @ ''_'') @
   (if get_shot_type frame = [] then [] else get_shot_type frame @ ''_'') @
   fmt03d rank @ ''.'' @ extension"
  using fmt03d_nonempty [of rank]
  by (simp add: full_frame_base_filename_def Let_def)













section \<open>The base name as a prefix of the names issued\<close>

lemma split_sep_no_sep: "sep \<notin> set s \<Longrightarrow> split_sep sep s = [s]"
  by (induction s) auto

lemma path_name_no_slash:
  "CHR ''/'' \<notin> set s \<Longrightarrow> s \<noteq> [] \<Longrightarrow> s \<noteq> ''.'' \<Longrightarrow> path_name s = s"
  by (simp add: path_name_def path_parts_def split_sep_no_sep)

lemma rfind_after:
  "int (length j) \<le> rfind (j @ c # e) c"
proof -
  have "length (takeWhile (\<lambda>x. x \<noteq> c) (rev e)) \<le> length (rev e)"
    by (rule length_takeWhile_le)
  then have "length (takeWhile (\<lambda>x. x \<noteq> c) (rev e @ c # rev j)) \<le> length e"
    by (simp add: takeWhile_append)
  then show ?thesis by (simp add: rfind_def)
qed

lemma path_stem_keeps_prefix:
  assumes "CHR ''/'' \<notin> set (j @ ''.'' @ e)" and "j \<noteq> []"
  shows "\<exists>r. path_stem (j @ ''.'' @ e) = j @ r"
proof -
  let ?s = "j @ ''.'' @ e"
  from assms(2) have "?s \<noteq> []" and "?s \<noteq> ''.''"
    by (simp_all add: append_eq_Cons_conv)
  with assms(1) have n: "path_name ?s = ?s" by (rule path_name_no_slash)
  have i: "int (length j) \<le> rfind ?s (CHR ''.'')"
    using rfind_after [of j "CHR ''.''" e] by simp
  show ?thesis
  proof (cases "0 < rfind ?s (CHR ''.'') \<and> rfind ?s (CHR ''.'') < int (length ?s) - 1")
    case True
    with n have "path_stem ?s = take (nat (rfind ?s (CHR ''.''))) ?s"
      by (simp add: path_stem_def Let_def)
    also from i have "\<dots> = j @ take (nat (rfind ?s (CHR ''.'')) - length j) (''.'' @ e)"
      by simp
    finally show ?thesis by blast
  next
    case False
    with n have "path_stem ?s = ?s" by (auto simp: path_stem_def Let_def)
    then show ?thesis by blast
  qed
qed

lemma full_frame_base_split:
  "\<exists>j. full_frame_base_filename nc frame category rank extension = j @ ''.'' @ extension \<and>
       j \<noteq> [] \<and> startswith j (video_base_name nc)"
proof (cases "video_base_name nc = []")
  case True
  have "full_frame_base_filename nc frame category rank extension =
        ((if category = [] then [] else category @ ''_'') @
         (if get_head_direction frame = [] then [] else get_head_direction frame @ ''_'') @
         (if get_shot_type frame = [] then [] else get_shot_type frame @ ''_'') @
         fmt03d rank) @ ''.'' @ extension"
    using True by (simp add: full_frame_base_concat)
  moreover have "(if category = [] then [] else category @ ''_'') @
         (if get_head_direction frame = [] then [] else get_head_direction frame @ ''_'') @
         (if get_shot_type frame = [] then [] else get_shot_type frame @ ''_'') @
         fmt03d rank \<noteq> []"
    using fmt03d_nonempty [of rank] by simp
  ultimately show ?thesis using True by (auto simp: startswith_def)
next
  case False
  have "full_frame_base_filename nc frame category rank extension =
        (video_base_name nc @ ''_'' @
         (if category = [] then [] else category @ ''_'') @
         (if get_head_direction frame = [] then [] else get_head_direction frame @ ''_'') @
         (if get_shot_type frame = [] then [] else get_shot_type frame @ ''_'') @
         fmt03d rank) @ ''.'' @ extension"
    using False by (simp add: full_frame_base_concat)
  moreover have "startswith (video_base_name nc @ ''_'' @
         (if category = [] then [] else category @ ''_'') @
         (if get_head_direction frame = [] then [] else get_head_direction frame @ ''_'') @
         (if get_shot_type frame = [] then [] else get_shot_type frame @ ''_'') @
         fmt03d rank) (video_base_name nc)"
    by (simp add: startswith_def)
  ultimately show ?thesis using False by blast
qed

lemma face_crop_base_split:
  "\<exists>j. face_crop_base_filename nc head_angle rank extension = j @ ''.'' @ extension \<and>
       j \<noteq> [] \<and> startswith j (video_base_name nc)"
proof -
  have "face_crop_base_filename nc head_angle rank extension =
        (video_base_name nc @ ''_face_'' @ head_angle @ ''_'' @ fmt03d rank) @ ''.'' @ extension"
    by (simp add: face_crop_base_concat)
  moreover have "startswith (video_base_name nc @ ''_face_'' @ head_angle @ ''_'' @ fmt03d rank)
      (video_base_name nc)"
    by (simp add: startswith_def)
  ultimately show ?thesis by blast
qed

lemma startswith_append: "startswith j p \<Longrightarrow> startswith (j @ r) p"
  by (auto simp: startswith_iff)

lemma ensure_unique_keeps_prefix:
  assumes b: "b = j @ ''.'' @ e" and j: "j \<noteq> []" and p: "startswith j base"
    and s: "CHR ''/'' \<notin> set b"
    and r: "ensure_unique_filename nc b = Some (name, nc')"
  shows "startswith name base"
proof (cases "b |\<in>| used_filenames nc")
  case True
  from ensure_unique_collision [OF True] r obtain k where
    "name = sequenced_name (path_stem b) (path_suffix b) k" by auto
  moreover from path_stem_keeps_prefix [of j e] s j b obtain t where "path_stem b = j @ t"
    by auto
  ultimately have "name = j @ (t @ ''_'' @ fmt03d k @ path_suffix b)"
    by (simp add: sequenced_name_def)
  with p show ?thesis by (metis startswith_append)
next
  case False
  with r have "name = b" by (simp add: ensure_unique_fresh)
  with b p show ?thesis by (simp add: startswith_append)
qed

lemma slash_path_stem: "path_stem ''clip01_a/b_001.jpg'' = ''b_001''"
  by (simp add: path_stem_def path_name_def path_parts_def rfind_def)

lemma slash_path_suffix: "path_suffix ''clip01_a/b_001.jpg'' = ''.jpg''"
  by (simp add: path_suffix_def path_name_def path_parts_def rfind_def)

lemma slash_base:
  "video_base_name nc = ''clip01'' \<Longrightarrow>
   full_frame_base_filename nc \<lparr>head_poses = [], closeup_detections = []\<rparr> ''a/b'' 1 ''jpg'' =
   ''clip01_a/b_001.jpg''"
  by (simp add: full_frame_base_filename_def get_head_direction_def get_shot_type_def fmt03d_1)

lemma slash_first:
  "get_full_frame_filename (init_naming ''clip01'' outdir)
     \<lparr>head_poses = [], closeup_detections = []\<rparr> ''a/b'' 1 ''jpg'' =
   Some (''clip01_a/b_001.jpg'',
     \<lparr>video_base_name = ''clip01'', output_directory = outdir,
      used_filenames = {|''clip01_a/b_001.jpg''|}, sequence_counters = Map.empty\<rparr>)"
  by (simp add: get_full_frame_filename_def slash_base init_naming_def ensure_unique_filename_def)

lemma slash_second:
  "get_full_frame_filename
     \<lparr>video_base_name = ''clip01'', output_directory = outdir,
      used_filenames = {|''clip01_a/b_001.jpg''|}, sequence_counters = Map.empty\<rparr>
     \<lparr>head_poses = [], closeup_detections = []\<rparr> ''a/b'' 1 ''jpg'' =
   Some (''b_001_001.jpg'',
     \<lparr>video_base_name = ''clip01'', output_directory = outdir,
      used_filenames = {|''b_001_001.jpg'', ''clip01_a/b_001.jpg''|},
      sequence_counters = [''b_001'' \<mapsto> 1]\<rparr>)"
  by (simp add: get_full_frame_filename_def slash_base ensure_unique_filename_def
      slash_path_stem slash_path_suffix counter_of_def unique_loop_hit sequenced_name_def fmt03d_1)

section \<open>The claims about the naming convention\<close>

text \<open>
  Claim C9. Every filename-issuing call returns a name: \<open>get_full_frame_filename\<close> and
  \<open>get_face_crop_filename\<close> have a result for every state, frame, label, rank and
  extension, and the collision loop itself, which is written \<open>while True\<close>, stops for
  every set of used names, every stem, every extension and every starting sequence
  number. The set of used names is finite and two sequence numbers never give the same
  candidate, so some candidate is unused.
\<close>

theorem filename_issuing_returns:
  "(\<forall>nc frame category rank extension.
      \<exists>name nc'. get_full_frame_filename nc frame category rank extension = Some (name, nc')) \<and>
   (\<forall>nc frame head_angle rank extension.
      \<exists>name nc'. get_face_crop_filename nc frame head_angle rank extension = Some (name, nc')) \<and>
   (\<forall>used name_without_ext extension sequence.
      \<exists>new_filename sequence'.
        unique_loop used name_without_ext extension sequence = Some (new_filename, sequence'))"
proof (intro conjI allI)
  fix nc frame category rank extension
  show "\<exists>name nc'. get_full_frame_filename nc frame category rank extension = Some (name, nc')"
    unfolding get_full_frame_filename_def by (rule ensure_unique_returns)
next
  fix nc frame head_angle rank extension
  show "\<exists>name nc'. get_face_crop_filename nc frame head_angle rank extension = Some (name, nc')"
    unfolding get_face_crop_filename_def by (rule ensure_unique_returns)
next
  fix used name_without_ext extension sequence
  from unique_loop_returns [of used name_without_ext extension sequence]
  show "\<exists>new_filename sequence'.
      unique_loop used name_without_ext extension sequence = Some (new_filename, sequence')"
    by blast
qed

theorem filename_issuing_returns_witness:
  "(\<exists>name nc'. get_full_frame_filename (init_naming ''clip01'' ''out'') front_frame
       ''standing'' 1 ''jpg'' = Some (name, nc')) \<and>
   (\<exists>name nc'. get_face_crop_filename (init_naming ''clip01'' ''out'') front_frame
       ''profile-left'' 2 ''png'' = Some (name, nc')) \<and>
   (\<exists>new_filename sequence'.
      unique_loop {|''a_001.jpg'', ''a_002.jpg''|} ''a'' ''.jpg'' 1 = Some (new_filename, sequence'))"
  using filename_issuing_returns by blast

text \<open>
  Claim C1. For every sequence of issuing calls run from any state of an instance: the
  names returned are pairwise distinct and none of them was in use before the sequence
  started, the names in use afterwards are those in use before together with the names
  returned (so a name returned earlier is never returned again), and for every stem the
  number the dictionary \<open>_sequence_counters\<close> holds (0 for a stem it does not hold) is
  not lower afterwards than before. For a single call: either the candidate name was
  unused, it is returned and the dictionary does not change; or the candidate was in
  use, and then the name returned is stem, underscore, sequence number, suffix, for a
  number strictly above the one the dictionary held for the stem, and the dictionary
  holds that number for the stem afterwards. For two calls of one sequence whose
  candidates have the same stem and were both in use when they were made: the sequence
  number written into the name of the later call is strictly above the one written into
  the name of the earlier call, and not above what the dictionary holds for the stem at
  the end; so no sequence number is given to a stem twice, whatever the extensions are.
  On a fresh instance with base name clip01, three identical calls for category standing,
  head direction front, rank 1 and extension jpg return clip01_standing_front_001.jpg,
  clip01_standing_front_001_001.jpg and clip01_standing_front_001_002.jpg. On a fresh
  instance with base name a, two face crop calls for x, rank 1, jpg followed by two for
  x, rank 1, png return a_face_x_001.jpg, a_face_x_001_001.jpg, a_face_x_001.png and
  a_face_x_001_002.png: the number 1 of the stem is not given again.
\<close>

theorem issued_filenames_unique:
  "(\<forall>nc cs names nc'. issue_all nc cs = Some (names, nc') \<longrightarrow>
      distinct names \<and> (\<forall>n \<in> set names. n |\<notin>| used_filenames nc) \<and>
      fset (used_filenames nc') = fset (used_filenames nc) \<union> set names \<and>
      (\<forall>stem. (case sequence_counters nc stem of None \<Rightarrow> 0 | Some n \<Rightarrow> n) \<le>
              (case sequence_counters nc' stem of None \<Rightarrow> 0 | Some n \<Rightarrow> n))) \<and>
   (\<forall>nc c name nc'. issue nc c = Some (name, nc') \<longrightarrow>
      (if base_filename_of nc c |\<notin>| used_filenames nc
       then name = base_filename_of nc c \<and> sequence_counters nc' = sequence_counters nc
       else \<exists>k. (case sequence_counters nc (path_stem (base_filename_of nc c)) of
                   None \<Rightarrow> 0 | Some n \<Rightarrow> n) < k \<and>
              name = path_stem (base_filename_of nc c) @ ''_'' @ fmt03d k @
                       path_suffix (base_filename_of nc c) \<and>
              sequence_counters nc' =
                (sequence_counters nc)(path_stem (base_filename_of nc c) \<mapsto> k))) \<and>
   (\<forall>nc cs names nc' i j.
      issue_all nc cs = Some (names, nc') \<and> i < j \<and> j < length cs \<and>
      names ! i \<noteq> base_filename_of nc (cs ! i) \<and>
      names ! j \<noteq> base_filename_of nc (cs ! j) \<and>
      path_stem (base_filename_of nc (cs ! i)) = path_stem (base_filename_of nc (cs ! j)) \<longrightarrow>
      (\<exists>m n. m < n \<and>
         n \<le> (case sequence_counters nc' (path_stem (base_filename_of nc (cs ! j))) of
                None \<Rightarrow> 0 | Some k \<Rightarrow> k) \<and>
         names ! i = path_stem (base_filename_of nc (cs ! i)) @ ''_'' @ fmt03d m @
                       path_suffix (base_filename_of nc (cs ! i)) \<and>
         names ! j = path_stem (base_filename_of nc (cs ! j)) @ ''_'' @ fmt03d n @
                       path_suffix (base_filename_of nc (cs ! j)))) \<and>
   (\<forall>a b. fmt03d a = fmt03d b \<longrightarrow> a = b) \<and>
   (\<forall>frame outdir. get_head_direction frame = ''front'' \<and> get_shot_type frame = [] \<longrightarrow>
      map_option fst (issue_all (init_naming ''clip01'' outdir)
        [FullFrame frame ''standing'' 1 ''jpg'', FullFrame frame ''standing'' 1 ''jpg'',
         FullFrame frame ''standing'' 1 ''jpg'']) =
      Some [''clip01_standing_front_001.jpg'', ''clip01_standing_front_001_001.jpg'',
            ''clip01_standing_front_001_002.jpg'']) \<and>
   (\<forall>frame outdir.
      map_option fst (issue_all (init_naming ''a'' outdir)
        [FaceCrop frame ''x'' 1 ''jpg'', FaceCrop frame ''x'' 1 ''jpg'',
         FaceCrop frame ''x'' 1 ''png'', FaceCrop frame ''x'' 1 ''png'']) =
      Some [''a_face_x_001.jpg'', ''a_face_x_001_001.jpg'', ''a_face_x_001.png'',
            ''a_face_x_001_002.png''])"
proof (intro conjI allI impI)
  fix nc cs names nc'
  assume r: "issue_all nc cs = Some (names, nc')"
  from issue_all_spec [OF r] show "distinct names" by blast
  from issue_all_spec [OF r] show "\<forall>n \<in> set names. n |\<notin>| used_filenames nc" by blast
  from issue_all_spec [OF r]
  show "fset (used_filenames nc') = fset (used_filenames nc) \<union> set names" by blast
  fix stem
  from issue_all_spec [OF r]
  have "counter_of (sequence_counters nc) stem \<le> counter_of (sequence_counters nc') stem"
    by blast
  then show "(case sequence_counters nc stem of None \<Rightarrow> 0 | Some n \<Rightarrow> n) \<le>
             (case sequence_counters nc' stem of None \<Rightarrow> 0 | Some n \<Rightarrow> n)"
    unfolding counter_of_def .
next
  fix nc c name nc'
  assume "issue nc c = Some (name, nc')"
  from issue_step [OF this]
  show "if base_filename_of nc c |\<notin>| used_filenames nc
       then name = base_filename_of nc c \<and> sequence_counters nc' = sequence_counters nc
       else \<exists>k. (case sequence_counters nc (path_stem (base_filename_of nc c)) of
                   None \<Rightarrow> 0 | Some n \<Rightarrow> n) < k \<and>
              name = path_stem (base_filename_of nc c) @ ''_'' @ fmt03d k @
                       path_suffix (base_filename_of nc c) \<and>
              sequence_counters nc' =
                (sequence_counters nc)(path_stem (base_filename_of nc c) \<mapsto> k)"
    unfolding counter_of_def sequenced_name_def .
next
  fix nc cs names nc' and i j :: nat
  assume a: "issue_all nc cs = Some (names, nc') \<and> i < j \<and> j < length cs \<and>
      names ! i \<noteq> base_filename_of nc (cs ! i) \<and>
      names ! j \<noteq> base_filename_of nc (cs ! j) \<and>
      path_stem (base_filename_of nc (cs ! i)) = path_stem (base_filename_of nc (cs ! j))"
  then have r: "issue_all nc cs = Some (names, nc')" and ij: "i < j" and jl: "j < length cs"
    and ni: "names ! i \<noteq> base_filename_of nc (cs ! i)"
    and nj: "names ! j \<noteq> base_filename_of nc (cs ! j)"
    and st: "path_stem (base_filename_of nc (cs ! i)) = path_stem (base_filename_of nc (cs ! j))"
    by blast+
  from issue_all_numbers_increase [OF r ij jl ni nj st]
  show "\<exists>m n. m < n \<and>
         n \<le> (case sequence_counters nc' (path_stem (base_filename_of nc (cs ! j))) of
                None \<Rightarrow> 0 | Some k \<Rightarrow> k) \<and>
         names ! i = path_stem (base_filename_of nc (cs ! i)) @ ''_'' @ fmt03d m @
                       path_suffix (base_filename_of nc (cs ! i)) \<and>
         names ! j = path_stem (base_filename_of nc (cs ! j)) @ ''_'' @ fmt03d n @
                       path_suffix (base_filename_of nc (cs ! j))"
    unfolding counter_of_def sequenced_name_def .
next
  fix a b :: int
  assume "fmt03d a = fmt03d b"
  then show "a = b" by (rule fmt03d_inj)
next
  fix frame outdir
  assume "get_head_direction frame = ''front'' \<and> get_shot_type frame = []"
  then have "get_head_direction frame = ''front''" and "get_shot_type frame = []"
    by simp_all
  from front_thrice [OF this, of outdir]
  show "map_option fst (issue_all (init_naming ''clip01'' outdir)
        [FullFrame frame ''standing'' 1 ''jpg'', FullFrame frame ''standing'' 1 ''jpg'',
         FullFrame frame ''standing'' 1 ''jpg'']) =
      Some [''clip01_standing_front_001.jpg'', ''clip01_standing_front_001_001.jpg'',
            ''clip01_standing_front_001_002.jpg'']"
    by (simp del: issue_all.simps)
next
  fix frame outdir
  from face_x_four_calls [of outdir frame]
  show "map_option fst (issue_all (init_naming ''a'' outdir)
        [FaceCrop frame ''x'' 1 ''jpg'', FaceCrop frame ''x'' 1 ''jpg'',
         FaceCrop frame ''x'' 1 ''png'', FaceCrop frame ''x'' 1 ''png'']) =
      Some [''a_face_x_001.jpg'', ''a_face_x_001_001.jpg'', ''a_face_x_001.png'',
            ''a_face_x_001_002.png'']"
    by (simp del: issue_all.simps)
qed

theorem issued_filenames_unique_witness:
  "issue_all (init_naming ''a'' ''out'')
     [FaceCrop front_frame ''x'' 1 ''jpg'', FaceCrop front_frame ''x'' 1 ''jpg'',
      FaceCrop front_frame ''x'' 1 ''png'', FaceCrop front_frame ''x'' 1 ''png''] =
   Some ([''a_face_x_001.jpg'', ''a_face_x_001_001.jpg'', ''a_face_x_001.png'',
          ''a_face_x_001_002.png''],
     \<lparr>video_base_name = ''a'', output_directory = ''out'',
      used_filenames = {|''a_face_x_001_002.png'', ''a_face_x_001.png'', ''a_face_x_001_001.jpg'',
         ''a_face_x_001.jpg''|},
      sequence_counters = [''a_face_x_001'' \<mapsto> 2]\<rparr>) \<and>
   distinct [''a_face_x_001.jpg'', ''a_face_x_001_001.jpg'', ''a_face_x_001.png'',
          ''a_face_x_001_002.png''] \<and>
   (\<exists>m n. m < n \<and> n \<le> (2 :: int) \<and>
      ''a_face_x_001_001.jpg'' = ''a_face_x_001'' @ ''_'' @ fmt03d m @ ''.jpg'' \<and>
      ''a_face_x_001_002.png'' = ''a_face_x_001'' @ ''_'' @ fmt03d n @ ''.png'')"
proof -
  let ?nc = "init_naming ''a'' ''out''"
  let ?cs = "[FaceCrop front_frame ''x'' 1 ''jpg'', FaceCrop front_frame ''x'' 1 ''jpg'',
      FaceCrop front_frame ''x'' 1 ''png'', FaceCrop front_frame ''x'' 1 ''png'']"
  let ?names = "[''a_face_x_001.jpg'', ''a_face_x_001_001.jpg'', ''a_face_x_001.png'',
          ''a_face_x_001_002.png'']"
  let ?nc' = "\<lparr>video_base_name = ''a'', output_directory = ''out'',
      used_filenames = {|''a_face_x_001_002.png'', ''a_face_x_001.png'', ''a_face_x_001_001.jpg'',
         ''a_face_x_001.jpg''|},
      sequence_counters = [''a_face_x_001'' \<mapsto> 2]\<rparr>"
  have r: "issue_all ?nc ?cs = Some (?names, ?nc')"
    by (rule face_x_four_calls)
  from issued_filenames_unique [THEN conjunct1, rule_format, OF r]
  have d: "distinct ?names" by blast
  have b: "face_crop_base_filename ?nc ''x'' 1 ext = ''a_face_x_001.'' @ ext" for ext
    by (rule face_x_base) (simp add: init_naming_def)
  have h: "issue_all ?nc ?cs = Some (?names, ?nc') \<and> (1::nat) < 3 \<and> 3 < length ?cs \<and>
      ?names ! 1 \<noteq> base_filename_of ?nc (?cs ! 1) \<and>
      ?names ! 3 \<noteq> base_filename_of ?nc (?cs ! 3) \<and>
      path_stem (base_filename_of ?nc (?cs ! 1)) = path_stem (base_filename_of ?nc (?cs ! 3))"
    using r by (simp add: b face_x_stem_jpg face_x_stem_png numeral_3_eq_3 del: issue_all.simps)
  from issued_filenames_unique [THEN conjunct2, THEN conjunct2, THEN conjunct1, rule_format, OF h]
  have "\<exists>m n. m < n \<and> n \<le> (2 :: int) \<and>
      ''a_face_x_001_001.jpg'' = ''a_face_x_001'' @ ''_'' @ fmt03d m @ ''.jpg'' \<and>
      ''a_face_x_001_002.png'' = ''a_face_x_001'' @ ''_'' @ fmt03d n @ ''.png''"
    by (simp add: b face_x_stem_jpg face_x_stem_png face_x_suffix_jpg face_x_suffix_png
        numeral_3_eq_3)
  with r d show ?thesis by blast
qed

text \<open>
  Claim C7. \<open>validate_filename\<close> reads the instance and returns a truth value only
  (the model has no state to return: the code assigns nothing). It is false exactly when
  the name is empty, or contains one of the characters \<open><\<close>, \<open>>\<close>, colon, double
  quote, slash, backslash, bar, question mark, star, or is longer than 255 characters, or
  does not start with the video base name. For base name clip01 it rejects
  \<open>../etc/passwd\<close> and accepts \<open>clip01_standing_front_001.jpg\<close>.
\<close>

theorem validate_filename_exact:
  "(validate_filename nc filename \<longleftrightarrow>
      \<not> (filename = [] \<or>
         set filename \<inter> {CHR ''<'', CHR ''>'', CHR '':'', CHR 0x22, CHR ''/'', CHR 0x5C,
                          CHR ''|'', CHR ''?'', CHR ''*''} \<noteq> {} \<or>
         255 < length filename \<or>
         \<not> (\<exists>rest. filename = video_base_name nc @ rest))) \<and>
   (video_base_name nc = ''clip01'' \<longrightarrow>
      \<not> validate_filename nc ''../etc/passwd'' \<and>
      validate_filename nc ''clip01_standing_front_001.jpg'')"
  using validate_filename_iff [of nc filename] validate_examples [of nc]
  by (simp add: not_less)

theorem validate_filename_exact_witness:
  "\<not> validate_filename (init_naming ''clip01'' ''out'') ''../etc/passwd'' \<and>
   validate_filename (init_naming ''clip01'' ''out'') ''clip01_standing_front_001.jpg''"
  using validate_filename_exact [of "init_naming ''clip01'' ''out''" "[]"]
  by (simp add: init_naming_def)

text \<open>
  Claim C8. The candidate name of \<open>get_face_crop_filename\<close> is the base name, the word
  face, the head angle label and the formatted rank, joined by underscores with nothing
  filtered out (an empty label leaves two underscores in a row), followed by a dot and
  the extension; when that name is unused it is the name returned, and it is recorded as
  used. The rank is written by the format \<open>03d\<close>: for a rank that is not negative, its
  decimal digits padded with zeros on the left to at least three characters, exactly three
  below 1000 (a negative rank is written with its sign first, as \<open>-01\<close>). On a fresh
  instance with base name clip01, head angle profile-left, rank 2 and extension png give
  clip01_face_profile-left_002.png.
\<close>

theorem face_crop_filename_format:
  "face_crop_base_filename nc head_angle rank extension =
     video_base_name nc @ ''_face_'' @ head_angle @ ''_'' @ fmt03d rank @ ''.'' @ extension \<and>
   (face_crop_base_filename nc head_angle rank extension |\<notin>| used_filenames nc \<longrightarrow>
      get_face_crop_filename nc frame head_angle rank extension =
        Some (face_crop_base_filename nc head_angle rank extension,
          nc\<lparr>used_filenames :=
               finsert (face_crop_base_filename nc head_angle rank extension) (used_filenames nc)\<rparr>)) \<and>
   (0 \<le> rank \<longrightarrow>
      3 \<le> length (fmt03d rank) \<and> list_all is_digit (fmt03d rank) \<and>
      int (decode_nat (fmt03d rank)) = rank \<and> (rank < 1000 \<longrightarrow> length (fmt03d rank) = 3)) \<and>
   map_option fst (get_face_crop_filename (init_naming ''clip01'' outdir) frame ''profile-left'' 2 ''png'') =
     Some ''clip01_face_profile-left_002.png''"
proof (intro conjI impI)
  show "face_crop_base_filename nc head_angle rank extension =
     video_base_name nc @ ''_face_'' @ head_angle @ ''_'' @ fmt03d rank @ ''.'' @ extension"
    by (rule face_crop_base_concat)
  show "map_option fst (get_face_crop_filename (init_naming ''clip01'' outdir) frame ''profile-left'' 2 ''png'') =
     Some ''clip01_face_profile-left_002.png''"
    by (simp add: get_face_crop_filename_def face_crop_base_concat init_naming_def
        ensure_unique_filename_def fmt03d_2)
next
  assume "face_crop_base_filename nc head_angle rank extension |\<notin>| used_filenames nc"
  then show "get_face_crop_filename nc frame head_angle rank extension =
        Some (face_crop_base_filename nc head_angle rank extension,
          nc\<lparr>used_filenames :=
               finsert (face_crop_base_filename nc head_angle rank extension) (used_filenames nc)\<rparr>)"
    unfolding get_face_crop_filename_def by (rule ensure_unique_fresh)
next
  assume r: "0 \<le> rank"
  from fmt03d_nonneg(1) [OF r] show "3 \<le> length (fmt03d rank)" .
  from fmt03d_nonneg(2) [OF r] show "list_all is_digit (fmt03d rank)" .
  from fmt03d_nonneg(3) [OF r] show "int (decode_nat (fmt03d rank)) = rank" .
  assume "rank < 1000"
  with fmt03d_nonneg(4) [OF r] show "length (fmt03d rank) = 3" .
qed

theorem face_crop_filename_format_witness:
  "face_crop_base_filename (init_naming ''clip01'' ''out'') ''profile-left'' 2 ''png'' =
     ''clip01_face_profile-left_002.png'' \<and>
   get_face_crop_filename (init_naming ''clip01'' ''out'') front_frame ''profile-left'' 2 ''png'' =
     Some (''clip01_face_profile-left_002.png'',
       \<lparr>video_base_name = ''clip01'', output_directory = ''out'',
        used_filenames = {|''clip01_face_profile-left_002.png''|}, sequence_counters = Map.empty\<rparr>) \<and>
   length (fmt03d 2) = 3 \<and> decode_nat (fmt03d 2) = 2"
  using face_crop_filename_format [of "init_naming ''clip01'' ''out''" "''profile-left''" 2 "''png''"
      front_frame "''out''"]
  by (simp add: init_naming_def fmt03d_2)



text \<open>
  Claim C10, as stated, fails: the collision suffix is put on \<open>Path(name).stem\<close>, which
  is the stem of the last path component only. On a POSIX platform, with base name
  clip01 and category \<open>a/b\<close> the first call returns \<open>clip01_a/b_001.jpg\<close> and the
  second, identical call returns \<open>b_001_001.jpg\<close>, which does not start with the base
  name.
\<close>

theorem issued_name_loses_base_name:
  "get_full_frame_filename (init_naming ''clip01'' ''out'')
     \<lparr>head_poses = [], closeup_detections = []\<rparr> ''a/b'' 1 ''jpg'' =
   Some (''clip01_a/b_001.jpg'',
     \<lparr>video_base_name = ''clip01'', output_directory = ''out'',
      used_filenames = {|''clip01_a/b_001.jpg''|}, sequence_counters = Map.empty\<rparr>) \<and>
   get_full_frame_filename
     \<lparr>video_base_name = ''clip01'', output_directory = ''out'',
      used_filenames = {|''clip01_a/b_001.jpg''|}, sequence_counters = Map.empty\<rparr>
     \<lparr>head_poses = [], closeup_detections = []\<rparr> ''a/b'' 1 ''jpg'' =
   Some (''b_001_001.jpg'',
     \<lparr>video_base_name = ''clip01'', output_directory = ''out'',
      used_filenames = {|''b_001_001.jpg'', ''clip01_a/b_001.jpg''|},
      sequence_counters = [''b_001'' \<mapsto> 1]\<rparr>) \<and>
   \<not> startswith ''b_001_001.jpg'' ''clip01''"
  by (simp add: slash_first slash_second startswith_def)

text \<open>
  Claim C10, amended. On a POSIX platform, where \<open>Path(name)\<close> is a \<open>PosixPath\<close> and
  the slash is the only path separator: when the candidate name of a call contains no
  slash (that is, none in the base name, the labels and the extension), the name the
  call returns starts with the video base name, also when it carries a collision suffix;
  so it passes the prefix check of \<open>validate_filename\<close>. This holds for
  \<open>get_full_frame_filename\<close> and for \<open>get_face_crop_filename\<close>, from every state of the
  instance. (On Windows a backslash or a drive prefix in the candidate cuts the stem in
  the same way as the slash does here; that platform is not modelled.)
\<close>

theorem issued_names_keep_base_name:
  "(\<forall>nc frame category rank extension name nc'.
      CHR ''/'' \<notin> set (full_frame_base_filename nc frame category rank extension) \<and>
      get_full_frame_filename nc frame category rank extension = Some (name, nc') \<longrightarrow>
      startswith name (video_base_name nc)) \<and>
   (\<forall>nc frame head_angle rank extension name nc'.
      CHR ''/'' \<notin> set (face_crop_base_filename nc head_angle rank extension) \<and>
      get_face_crop_filename nc frame head_angle rank extension = Some (name, nc') \<longrightarrow>
      startswith name (video_base_name nc))"
proof (intro conjI allI impI)
  fix nc frame category rank extension name nc'
  assume a: "CHR ''/'' \<notin> set (full_frame_base_filename nc frame category rank extension) \<and>
      get_full_frame_filename nc frame category rank extension = Some (name, nc')"
  from full_frame_base_split [of nc frame category rank extension] obtain j where
    j: "full_frame_base_filename nc frame category rank extension = j @ ''.'' @ extension"
       "j \<noteq> []" "startswith j (video_base_name nc)" by blast
  from a have s: "CHR ''/'' \<notin> set (full_frame_base_filename nc frame category rank extension)"
    and r: "ensure_unique_filename nc (full_frame_base_filename nc frame category rank extension) =
      Some (name, nc')"
    by (simp_all add: get_full_frame_filename_def)
  from ensure_unique_keeps_prefix [OF j s r] show "startswith name (video_base_name nc)" .
next
  fix nc frame head_angle rank extension name nc'
  assume a: "CHR ''/'' \<notin> set (face_crop_base_filename nc head_angle rank extension) \<and>
      get_face_crop_filename nc frame head_angle rank extension = Some (name, nc')"
  from face_crop_base_split [of nc head_angle rank extension] obtain j where
    j: "face_crop_base_filename nc head_angle rank extension = j @ ''.'' @ extension"
       "j \<noteq> []" "startswith j (video_base_name nc)" by blast
  from a have s: "CHR ''/'' \<notin> set (face_crop_base_filename nc head_angle rank extension)"
    and r: "ensure_unique_filename nc (face_crop_base_filename nc head_angle rank extension) =
      Some (name, nc')"
    by (simp_all add: get_face_crop_filename_def)
  from ensure_unique_keeps_prefix [OF j s r] show "startswith name (video_base_name nc)" .
qed

theorem issued_names_keep_base_name_witness:
  "CHR ''/'' \<notin> set (full_frame_base_filename
      \<lparr>video_base_name = ''clip01'', output_directory = ''out'',
       used_filenames = {|''clip01_standing_front_001.jpg''|}, sequence_counters = Map.empty\<rparr>
      front_frame ''standing'' 1 ''jpg'') \<and>
   get_full_frame_filename
      \<lparr>video_base_name = ''clip01'', output_directory = ''out'',
       used_filenames = {|''clip01_standing_front_001.jpg''|}, sequence_counters = Map.empty\<rparr>
      front_frame ''standing'' 1 ''jpg'' =
   Some (''clip01_standing_front_001_001.jpg'',
     \<lparr>video_base_name = ''clip01'', output_directory = ''out'',
      used_filenames = {|''clip01_standing_front_001_001.jpg'', ''clip01_standing_front_001.jpg''|},
      sequence_counters = [''clip01_standing_front_001'' \<mapsto> 1]\<rparr>) \<and>
   startswith ''clip01_standing_front_001_001.jpg'' ''clip01''"
proof -
  let ?nc = "\<lparr>video_base_name = ''clip01'', output_directory = ''out'',
       used_filenames = {|''clip01_standing_front_001.jpg''|}, sequence_counters = Map.empty\<rparr>"
  have b: "full_frame_base_filename ?nc front_frame ''standing'' 1 ''jpg'' =
      ''clip01_standing_front_001.jpg''"
    by (rule front_base [OF _ front_direction front_shot]) simp
  have s: "CHR ''/'' \<notin> set (full_frame_base_filename ?nc front_frame ''standing'' 1 ''jpg'')"
    unfolding b by simp
  note r = front_second [OF front_direction front_shot, of "''out''"]
  from issued_names_keep_base_name [THEN conjunct1, rule_format, OF conjI, OF s r]
  have "startswith ''clip01_standing_front_001_001.jpg'' ''clip01''" by simp
  with s r show ?thesis by simp
qed

section \<open>The claims about the configuration\<close>

lemmas schema_defs =
  ModelConfig_fields_def FrameExtractionConfig_fields_def QualityConfig_fields_def
  PoseClassificationConfig_fields_def HeadAngleConfig_fields_def CloseupDetectionConfig_fields_def
  FrameSelectionConfig_fields_def PngConfig_fields_def JpegConfig_fields_def
  OutputImageConfig_fields_def OutputConfig_fields_def StorageConfig_fields_def
  ProcessingConfig_fields_def LoggingConfig_fields_def Config_fields_def
  DeviceType_values_def LogLevel_values_def model_defaults_def

lemmas suffix_eval =
  path_suffix_def path_name_def path_parts_def rfind_def lower_def char_lower_def

section \<open>Saving a configuration and loading it again\<close>

lemma model_dump_None: "model_dump v = PNone \<longleftrightarrow> v = VNone"
  by (cases v) simp_all

lemma conforms_fields_names:
  "conforms_fields fs seen data \<Longrightarrow> map fst data = map field_name fs"
proof (induction fs arbitrary: seen data)
  case Nil
  then show ?case by simp
next
  case (Cons f fs)
  obtain name t dflt validators where f: "f = Field name t dflt validators" by (cases f)
  from Cons.prems obtain v rest where
    d: "data = (name, v) # rest" and r: "conforms_fields fs (seen @ [(name, v)]) rest"
    unfolding f by (auto split: list.splits prod.splits)
  from Cons.IH [OF r] d f show ?case by simp
qed

lemma wf_fields_distinct: "wf_fields fs \<Longrightarrow> distinct (map field_name fs)"
proof (induction fs)
  case Nil
  then show ?case by simp
next
  case (Cons f fs)
  then show ?case by (cases f) simp
qed

lemma map_of_dump:
  "distinct (map fst data) \<Longrightarrow> (k, v) \<in> set data \<Longrightarrow>
   map_of (map (\<lambda>(name, v). (name, model_dump v)) data) k = Some (model_dump v)"
  by (induction data) (auto simp: rev_image_eqI)

lemma validate_round_trip:
  "wf_type t \<Longrightarrow> conforms t v \<Longrightarrow> validate t (model_dump v) = Inr v"
  and validate_fields_round_trip:
  "wf_fields fs \<Longrightarrow> conforms_fields fs seen data \<Longrightarrow>
   (\<And>k w. (k, w) \<in> set data \<Longrightarrow> map_of kwargs k = Some (model_dump w)) \<Longrightarrow>
   validate_fields fs kwargs errors seen = (errors, seen @ data)"
proof (induction t v and fs seen data arbitrary: and kwargs errors rule: conforms_conforms_fields.induct)
  case (1 v)
  then show ?case by (cases v) simp_all
next
  case (2 v)
  then show ?case by (cases v) simp_all
next
  case (3 ge le v)
  then show ?case by (cases v) simp_all
next
  case (4 ge le v)
  then show ?case by (cases v) simp_all
next
  case (5 members v)
  then show ?case by (cases v) simp_all
next
  case (6 v)
  then show ?case by (cases v) simp_all
next
  case (7 t v)
  show ?case
  proof (cases "v = VNone")
    case True
    then show ?thesis by simp
  next
    case False
    with 7 have "validate t (model_dump v) = Inr v" by simp
    moreover from False have "model_dump v \<noteq> PNone" by (simp add: model_dump_None)
    ultimately show ?thesis by (cases "model_dump v") simp_all
  qed
next
  case (8 model_fields v)
  from 8(3) obtain data where v: "v = VModel data" and c: "conforms_fields model_fields [] data"
    by (cases v) simp_all
  from 8(2) have w: "wf_fields model_fields" by simp
  from conforms_fields_names [OF c] wf_fields_distinct [OF w] have dn: "distinct (map fst data)"
    by simp
  have "validate_fields model_fields (map (\<lambda>(name, v). (name, model_dump v)) data) [] [] = ([], [] @ data)"
    by (rule 8(1) [OF v w c]) (rule map_of_dump [OF dn])
  with v show ?case by simp
next
  case (9 seen data)
  then show ?case by simp
next
  case (10 name t dflt validators model_fields seen data)
  from 10(4) obtain v rest where
    d: "data = (name, v) # rest" and ct: "conforms t v" and
    rv: "run_validators validators name seen v = Some v" and
    cr: "conforms_fields model_fields (seen @ [(name, v)]) rest"
    by (auto split: list.splits prod.splits)
  from 10(3) have wt: "wf_type t" and wr: "wf_fields model_fields" by simp_all
  from 10(5) [of name v] d have m: "map_of kwargs name = Some (model_dump v)" by simp
  from 10(1) [OF d refl wt ct] have vt: "validate t (model_dump v) = Inr v" .
  have "validate_fields model_fields kwargs errors (seen @ [(name, v)]) =
        (errors, (seen @ [(name, v)]) @ rest)"
    by (rule 10(2) [OF d refl wr cr]) (simp add: 10(5) d)
  with m vt rv d show ?case by simp
qed

lemma in_range_conforms:
  "no_validators t \<Longrightarrow> in_range t v \<Longrightarrow> conforms t v"
  and fields_in_range_conforms:
  "no_validators_fields fs \<Longrightarrow> fields_in_range fs data \<Longrightarrow> conforms_fields fs seen data"
proof (induction t v and fs data arbitrary: and seen rule: in_range_fields_in_range.induct)
  case (7 t v)
  then show ?case by (cases "v = VNone") simp_all
next
  case (8 model_fields v)
  then show ?case by (cases v) simp_all
next
  case (10 name t dflt validators model_fields data)
  from 10(4) obtain v rest where
    d: "data = (name, v) # rest" and ht: "in_range t v" and hr: "fields_in_range model_fields rest"
    by (auto split: list.splits prod.splits)
  from 10(3) have nv: "validators = []" and nt: "no_validators t"
    and nr: "no_validators_fields model_fields" by simp_all
  from 10(1) [OF d refl nt ht] have "conforms t v" .
  moreover from 10(2) [OF d refl nr hr] have "conforms_fields model_fields (seen @ [(name, v)]) rest" .
  ultimately show ?case using d nv by simp
qed simp_all

lemma fields_in_range_Cons:
  "fields_in_range (Field name t dflt validators # fs) data \<Longrightarrow>
   \<exists>v rest. data = (name, v) # rest \<and> in_range t v \<and> fields_in_range fs rest"
  by (auto split: list.splits prod.splits)

lemma frame_selection_conforms:
  assumes h: "in_range (TModel FrameSelectionConfig_fields) v"
    and f: "getattr v ''face_size_weight'' = Some (VFloat b)"
    and q: "getattr v ''quality_weight'' = Some (VFloat c)"
    and s: "b + c \<le> 1"
  shows "conforms (TModel FrameSelectionConfig_fields) v"
proof -
  from h obtain data where v: "v = VModel data"
    and t: "fields_in_range FrameSelectionConfig_fields data"
    by (cases v) simp_all
  from t obtain a b' c' d where
    data: "data = [(''min_quality_threshold'', VFloat a), (''face_size_weight'', VFloat b'),
                   (''quality_weight'', VFloat c'), (''diversity_threshold'', VFloat d)]"
    and r: "in_bounds (Some 0) (Some 1) a" "in_bounds (Some 0) (Some 1) b'"
           "in_bounds (Some 0) (Some 1) c'" "in_bounds (Some 0) (Some 1) d"
    unfolding FrameSelectionConfig_fields_def
    by (auto split: list.splits prod.splits pyobj.splits)
  from f q have "b' = b" "c' = c" by (simp_all add: v data)
  with data r s v show ?thesis
    by (simp add: FrameSelectionConfig_fields_def validate_weights_sum_def not_less)
qed

lemma Config_wf: "wf_type (TModel (Config_fields ucd))"
  by (simp add: schema_defs)

lemma Config_groups:
  assumes "in_range (TModel (Config_fields ucd)) cfg"
  obtains v1 v2 v3 v4 v5 v6 v7 v8 v9 v10 v11 where
    "cfg = VModel [(''models'', v1), (''frame_extraction'', v2), (''quality'', v3),
       (''pose_classification'', v4), (''head_angle'', v5), (''closeup_detection'', v6),
       (''frame_selection'', v7), (''output'', v8), (''storage'', v9), (''processing'', v10),
       (''logging'', v11)]"
    "in_range (TModel ModelConfig_fields) v1"
    "in_range (TModel FrameExtractionConfig_fields) v2"
    "in_range (TModel QualityConfig_fields) v3"
    "in_range (TModel PoseClassificationConfig_fields) v4"
    "in_range (TModel HeadAngleConfig_fields) v5"
    "in_range (TModel CloseupDetectionConfig_fields) v6"
    "in_range (TModel FrameSelectionConfig_fields) v7"
    "in_range (TModel OutputConfig_fields) v8"
    "in_range (TModel (StorageConfig_fields ucd)) v9"
    "in_range (TModel ProcessingConfig_fields) v10"
    "in_range (TModel LoggingConfig_fields) v11"
proof -
  from assms obtain data where c: "cfg = VModel data"
    and t: "fields_in_range (Config_fields ucd) data"
    by (cases cfg) simp_all
  from t [unfolded Config_fields_def] obtain v1 r1 where
    d1: "data = (''models'', v1) # r1" and h1: "in_range (TModel ModelConfig_fields) v1"
    and t1: "fields_in_range
      [Field ''frame_extraction'' (TModel FrameExtractionConfig_fields)
        (model_defaults FrameExtractionConfig_fields) [],
      Field ''quality'' (TModel QualityConfig_fields) (model_defaults QualityConfig_fields) [],
      Field ''pose_classification'' (TModel PoseClassificationConfig_fields)
        (model_defaults PoseClassificationConfig_fields) [],
      Field ''head_angle'' (TModel HeadAngleConfig_fields) (model_defaults HeadAngleConfig_fields) [],
      Field ''closeup_detection'' (TModel CloseupDetectionConfig_fields)
        (model_defaults CloseupDetectionConfig_fields) [],
      Field ''frame_selection'' (TModel FrameSelectionConfig_fields)
        (model_defaults FrameSelectionConfig_fields) [],
      Field ''output'' (TModel OutputConfig_fields) (model_defaults OutputConfig_fields) [],
      Field ''storage'' (TModel (StorageConfig_fields ucd))
        (model_defaults (StorageConfig_fields ucd)) [],
      Field ''processing'' (TModel ProcessingConfig_fields) (model_defaults ProcessingConfig_fields) [],
      Field ''logging'' (TModel LoggingConfig_fields) (model_defaults LoggingConfig_fields) []] r1"
    by (blast dest: fields_in_range_Cons)
  from fields_in_range_Cons [OF t1] obtain v2 r2 where
    d2: "r1 = (''frame_extraction'', v2) # r2" and h2: "in_range (TModel FrameExtractionConfig_fields) v2"
    and t2: "fields_in_range
      [Field ''quality'' (TModel QualityConfig_fields) (model_defaults QualityConfig_fields) [],
      Field ''pose_classification'' (TModel PoseClassificationConfig_fields)
        (model_defaults PoseClassificationConfig_fields) [],
      Field ''head_angle'' (TModel HeadAngleConfig_fields) (model_defaults HeadAngleConfig_fields) [],
      Field ''closeup_detection'' (TModel CloseupDetectionConfig_fields)
        (model_defaults CloseupDetectionConfig_fields) [],
      Field ''frame_selection'' (TModel FrameSelectionConfig_fields)
        (model_defaults FrameSelectionConfig_fields) [],
      Field ''output'' (TModel OutputConfig_fields) (model_defaults OutputConfig_fields) [],
      Field ''storage'' (TModel (StorageConfig_fields ucd))
        (model_defaults (StorageConfig_fields ucd)) [],
      Field ''processing'' (TModel ProcessingConfig_fields) (model_defaults ProcessingConfig_fields) [],
      Field ''logging'' (TModel LoggingConfig_fields) (model_defaults LoggingConfig_fields) []] r2"
    by blast
  from fields_in_range_Cons [OF t2] obtain v3 r3 where
    d3: "r2 = (''quality'', v3) # r3" and h3: "in_range (TModel QualityConfig_fields) v3"
    and t3: "fields_in_range
      [Field ''pose_classification'' (TModel PoseClassificationConfig_fields)
        (model_defaults PoseClassificationConfig_fields) [],
      Field ''head_angle'' (TModel HeadAngleConfig_fields) (model_defaults HeadAngleConfig_fields) [],
      Field ''closeup_detection'' (TModel CloseupDetectionConfig_fields)
        (model_defaults CloseupDetectionConfig_fields) [],
      Field ''frame_selection'' (TModel FrameSelectionConfig_fields)
        (model_defaults FrameSelectionConfig_fields) [],
      Field ''output'' (TModel OutputConfig_fields) (model_defaults OutputConfig_fields) [],
      Field ''storage'' (TModel (StorageConfig_fields ucd))
        (model_defaults (StorageConfig_fields ucd)) [],
      Field ''processing'' (TModel ProcessingConfig_fields) (model_defaults ProcessingConfig_fields) [],
      Field ''logging'' (TModel LoggingConfig_fields) (model_defaults LoggingConfig_fields) []] r3"
    by blast
  from fields_in_range_Cons [OF t3] obtain v4 r4 where
    d4: "r3 = (''pose_classification'', v4) # r4"
    and h4: "in_range (TModel PoseClassificationConfig_fields) v4"
    and t4: "fields_in_range
      [Field ''head_angle'' (TModel HeadAngleConfig_fields) (model_defaults HeadAngleConfig_fields) [],
      Field ''closeup_detection'' (TModel CloseupDetectionConfig_fields)
        (model_defaults CloseupDetectionConfig_fields) [],
      Field ''frame_selection'' (TModel FrameSelectionConfig_fields)
        (model_defaults FrameSelectionConfig_fields) [],
      Field ''output'' (TModel OutputConfig_fields) (model_defaults OutputConfig_fields) [],
      Field ''storage'' (TModel (StorageConfig_fields ucd))
        (model_defaults (StorageConfig_fields ucd)) [],
      Field ''processing'' (TModel ProcessingConfig_fields) (model_defaults ProcessingConfig_fields) [],
      Field ''logging'' (TModel LoggingConfig_fields) (model_defaults LoggingConfig_fields) []] r4"
    by blast
  from fields_in_range_Cons [OF t4] obtain v5 r5 where
    d5: "r4 = (''head_angle'', v5) # r5" and h5: "in_range (TModel HeadAngleConfig_fields) v5"
    and t5: "fields_in_range
      [Field ''closeup_detection'' (TModel CloseupDetectionConfig_fields)
        (model_defaults CloseupDetectionConfig_fields) [],
      Field ''frame_selection'' (TModel FrameSelectionConfig_fields)
        (model_defaults FrameSelectionConfig_fields) [],
      Field ''output'' (TModel OutputConfig_fields) (model_defaults OutputConfig_fields) [],
      Field ''storage'' (TModel (StorageConfig_fields ucd))
        (model_defaults (StorageConfig_fields ucd)) [],
      Field ''processing'' (TModel ProcessingConfig_fields) (model_defaults ProcessingConfig_fields) [],
      Field ''logging'' (TModel LoggingConfig_fields) (model_defaults LoggingConfig_fields) []] r5"
    by blast
  from fields_in_range_Cons [OF t5] obtain v6 r6 where
    d6: "r5 = (''closeup_detection'', v6) # r6"
    and h6: "in_range (TModel CloseupDetectionConfig_fields) v6"
    and t6: "fields_in_range
      [Field ''frame_selection'' (TModel FrameSelectionConfig_fields)
        (model_defaults FrameSelectionConfig_fields) [],
      Field ''output'' (TModel OutputConfig_fields) (model_defaults OutputConfig_fields) [],
      Field ''storage'' (TModel (StorageConfig_fields ucd))
        (model_defaults (StorageConfig_fields ucd)) [],
      Field ''processing'' (TModel ProcessingConfig_fields) (model_defaults ProcessingConfig_fields) [],
      Field ''logging'' (TModel LoggingConfig_fields) (model_defaults LoggingConfig_fields) []] r6"
    by blast
  from fields_in_range_Cons [OF t6] obtain v7 r7 where
    d7: "r6 = (''frame_selection'', v7) # r7"
    and h7: "in_range (TModel FrameSelectionConfig_fields) v7"
    and t7: "fields_in_range
      [Field ''output'' (TModel OutputConfig_fields) (model_defaults OutputConfig_fields) [],
      Field ''storage'' (TModel (StorageConfig_fields ucd))
        (model_defaults (StorageConfig_fields ucd)) [],
      Field ''processing'' (TModel ProcessingConfig_fields) (model_defaults ProcessingConfig_fields) [],
      Field ''logging'' (TModel LoggingConfig_fields) (model_defaults LoggingConfig_fields) []] r7"
    by blast
  from fields_in_range_Cons [OF t7] obtain v8 r8 where
    d8: "r7 = (''output'', v8) # r8" and h8: "in_range (TModel OutputConfig_fields) v8"
    and t8: "fields_in_range
      [Field ''storage'' (TModel (StorageConfig_fields ucd))
        (model_defaults (StorageConfig_fields ucd)) [],
      Field ''processing'' (TModel ProcessingConfig_fields) (model_defaults ProcessingConfig_fields) [],
      Field ''logging'' (TModel LoggingConfig_fields) (model_defaults LoggingConfig_fields) []] r8"
    by blast
  from fields_in_range_Cons [OF t8] obtain v9 r9 where
    d9: "r8 = (''storage'', v9) # r9" and h9: "in_range (TModel (StorageConfig_fields ucd)) v9"
    and t9: "fields_in_range
      [Field ''processing'' (TModel ProcessingConfig_fields) (model_defaults ProcessingConfig_fields) [],
      Field ''logging'' (TModel LoggingConfig_fields) (model_defaults LoggingConfig_fields) []] r9"
    by blast
  from fields_in_range_Cons [OF t9] obtain v10 r10 where
    d10: "r9 = (''processing'', v10) # r10" and h10: "in_range (TModel ProcessingConfig_fields) v10"
    and t10: "fields_in_range
      [Field ''logging'' (TModel LoggingConfig_fields) (model_defaults LoggingConfig_fields) []] r10"
    by blast
  from fields_in_range_Cons [OF t10] obtain v11 r11 where
    d11: "r10 = (''logging'', v11) # r11" and h11: "in_range (TModel LoggingConfig_fields) v11"
    and t11: "fields_in_range [] r11"
    by blast
  from t11 have "r11 = []" by simp
  with c d1 d2 d3 d4 d5 d6 d7 d8 d9 d10 d11 have
    "cfg = VModel [(''models'', v1), (''frame_extraction'', v2), (''quality'', v3),
       (''pose_classification'', v4), (''head_angle'', v5), (''closeup_detection'', v6),
       (''frame_selection'', v7), (''output'', v8), (''storage'', v9), (''processing'', v10),
       (''logging'', v11)]" by simp
  with that h1 h2 h3 h4 h5 h6 h7 h8 h9 h10 h11 show thesis by blast
qed

lemma Config_conforms:
  assumes h: "in_range (TModel (Config_fields ucd)) cfg"
    and f: "getattr_path cfg [''frame_selection'', ''face_size_weight''] = Some (VFloat b)"
    and q: "getattr_path cfg [''frame_selection'', ''quality_weight''] = Some (VFloat c)"
    and s: "b + c \<le> 1"
  shows "conforms (TModel (Config_fields ucd)) cfg"
proof -
  from Config_groups [OF h] obtain v1 v2 v3 v4 v5 v6 v7 v8 v9 v10 v11 where
    c: "cfg = VModel [(''models'', v1), (''frame_extraction'', v2), (''quality'', v3),
       (''pose_classification'', v4), (''head_angle'', v5), (''closeup_detection'', v6),
       (''frame_selection'', v7), (''output'', v8), (''storage'', v9), (''processing'', v10),
       (''logging'', v11)]"
    and h1: "in_range (TModel ModelConfig_fields) v1"
    and h2: "in_range (TModel FrameExtractionConfig_fields) v2"
    and h3: "in_range (TModel QualityConfig_fields) v3"
    and h4: "in_range (TModel PoseClassificationConfig_fields) v4"
    and h5: "in_range (TModel HeadAngleConfig_fields) v5"
    and h6: "in_range (TModel CloseupDetectionConfig_fields) v6"
    and h7: "in_range (TModel FrameSelectionConfig_fields) v7"
    and h8: "in_range (TModel OutputConfig_fields) v8"
    and h9: "in_range (TModel (StorageConfig_fields ucd)) v9"
    and h10: "in_range (TModel ProcessingConfig_fields) v10"
    and h11: "in_range (TModel LoggingConfig_fields) v11"
    by blast
  have c1: "conforms (TModel ModelConfig_fields) v1"
    by (rule in_range_conforms [OF _ h1]) (simp add: schema_defs)
  have c2: "conforms (TModel FrameExtractionConfig_fields) v2"
    by (rule in_range_conforms [OF _ h2]) (simp add: schema_defs)
  have c3: "conforms (TModel QualityConfig_fields) v3"
    by (rule in_range_conforms [OF _ h3]) (simp add: schema_defs)
  have c4: "conforms (TModel PoseClassificationConfig_fields) v4"
    by (rule in_range_conforms [OF _ h4]) (simp add: schema_defs)
  have c5: "conforms (TModel HeadAngleConfig_fields) v5"
    by (rule in_range_conforms [OF _ h5]) (simp add: schema_defs)
  have c6: "conforms (TModel CloseupDetectionConfig_fields) v6"
    by (rule in_range_conforms [OF _ h6]) (simp add: schema_defs)
  from f q c have "getattr v7 ''face_size_weight'' = Some (VFloat b)"
    and "getattr v7 ''quality_weight'' = Some (VFloat c)"
    by (simp_all split: option.splits)
  from frame_selection_conforms [OF h7 this s]
  have c7: "conforms (TModel FrameSelectionConfig_fields) v7" .
  have c8: "conforms (TModel OutputConfig_fields) v8"
    by (rule in_range_conforms [OF _ h8]) (simp add: schema_defs)
  have c9: "conforms (TModel (StorageConfig_fields ucd)) v9"
    by (rule in_range_conforms [OF _ h9]) (simp add: schema_defs)
  have c10: "conforms (TModel ProcessingConfig_fields) v10"
    by (rule in_range_conforms [OF _ h10]) (simp add: schema_defs)
  have c11: "conforms (TModel LoggingConfig_fields) v11"
    by (rule in_range_conforms [OF _ h11]) (simp add: schema_defs)
  from c1 c2 c3 c4 c5 c6 c7 c8 c9 c10 c11 show ?thesis
    unfolding c Config_fields_def by simp
qed

lemma to_file_written:
  assumes "to_file fs cfg config_path = (None, fs')"
  shows "fs' config_path = Some (Parsed (model_dump cfg))"
    and "lower (path_suffix config_path) \<in> set [''.yaml'', ''.yml'', ''.json'']"
proof -
  from assms have
    "fs' config_path = Some (Parsed (model_dump cfg)) \<and>
     lower (path_suffix config_path) \<in> set [''.yaml'', ''.yml'', ''.json'']"
    by (auto simp: to_file_def Let_def split: sum.splits if_splits)
  then show "fs' config_path = Some (Parsed (model_dump cfg))"
    and "lower (path_suffix config_path) \<in> set [''.yaml'', ''.yml'', ''.json'']"
    by simp_all
qed

lemma Config_round_trip:
  assumes h: "in_range (TModel (Config_fields ucd)) cfg"
    and f: "getattr_path cfg [''frame_selection'', ''face_size_weight''] = Some (VFloat b)"
    and q: "getattr_path cfg [''frame_selection'', ''quality_weight''] = Some (VFloat c)"
    and s: "b + c \<le> 1"
    and t: "to_file fs cfg config_path = (None, fs')"
  shows "from_file fs' ucd config_path = Inr cfg"
proof -
  note w = to_file_written [OF t]
  from h obtain data where c: "cfg = VModel data" by (cases cfg) simp_all
  from validate_round_trip [OF Config_wf Config_conforms [OF h f q s]]
  have "validate (TModel (Config_fields ucd)) (model_dump cfg) = Inr cfg" .
  then have "Config_init ucd (map (\<lambda>(name, v). (name, model_dump v)) data) = Inr cfg"
    by (simp add: Config_init_def model_init_def c)
  with w show "from_file fs' ucd config_path = Inr cfg"
    by (auto simp: from_file_def c)
qed

lemma to_file_parent_is_file:
  "to_file [''a'' \<mapsto> Parsed PNone] cfg ''a/b.yaml'' = (Some FileExistsError, [''a'' \<mapsto> Parsed PNone])"
  by (simp add: to_file_def path_ancestors_def path_parts_def)

lemma to_file_creates_parent:
  "to_file Map.empty cfg ''a/b.yaml'' =
   (None, [''a'' \<mapsto> Directory, ''a/b.yaml'' \<mapsto> Parsed (model_dump cfg)])"
  by (simp add: to_file_def path_ancestors_def path_parts_def suffix_eval)

lemma heavy_face_reached:
  "Config_init ucd [(''frame_selection'', PDict [(''face_size_weight'', PFloat (6 / 10))])] =
   Inr (heavy_face_config ucd)"
  by (simp add: heavy_face_config_def Config_init_def model_init_def schema_defs
      validate_weights_sum_def update_field_def)

lemma Path_str_cache: "Path_str ''/cache'' = ''/cache''"
  by (simp add: Path_str_def path_parts_def)

lemma heavy_face_in_range: "in_range (TModel (Config_fields ''/cache'')) (heavy_face_config ''/cache'')"
  by (simp add: heavy_face_config_def schema_defs update_field_def Path_str_cache)

lemma heavy_face_reload:
  "from_file [''config.yaml'' \<mapsto> Parsed (model_dump (heavy_face_config ucd))] ucd ''config.yaml'' =
   Inl (ValidationError [[''frame_selection'', ''quality_weight'']])"
  by (simp add: from_file_def suffix_eval heavy_face_config_def Config_init_def model_init_def
      schema_defs validate_weights_sum_def update_field_def)

lemma default_in_range:
  "in_range (TModel (Config_fields ''/cache'')) (model_defaults (Config_fields ''/cache''))"
  by (simp add: schema_defs Path_str_cache)

lemma fields_in_range_lookup:
  "fields_in_range fs data \<Longrightarrow> wf_fields fs \<Longrightarrow> Field n t d vs \<in> set fs \<Longrightarrow>
   \<exists>v. map_of data n = Some v \<and> in_range t v"
proof (induction fs arbitrary: data)
  case Nil
  then show ?case by simp
next
  case (Cons f fs)
  obtain name t' dflt validators where f: "f = Field name t' dflt validators" by (cases f)
  from fields_in_range_Cons [OF Cons.prems(1) [unfolded f]] obtain v rest where
    d: "data = (name, v) # rest" and ht: "in_range t' v" and hr: "fields_in_range fs rest"
    by blast
  from Cons.prems(2) have w: "name \<notin> set (map field_name fs)" and wr: "wf_fields fs"
    unfolding f by simp_all
  show ?case
  proof (cases "Field n t d vs = f")
    case True
    with f d ht show ?thesis by simp
  next
    case False
    with Cons.prems(3) have m: "Field n t d vs \<in> set fs" by simp
    then have "n \<in> set (map field_name fs)" by force
    with w have "n \<noteq> name" by auto
    with Cons.IH [OF hr wr m] d show ?thesis by simp
  qed
qed

lemma doc_get_field:
  "doc_get (model_dump (VModel data)) [n] = map_option model_dump (map_of data n)"
proof -
  have "map_of (map (\<lambda>(name, v). (name, model_dump v)) data) n = map_option model_dump (map_of data n)"
    by (induction data) auto
  then show ?thesis by (simp split: option.splits)
qed

lemma model_field_dump:
  assumes "in_range (TModel fs) v" and "wf_fields fs" and "Field n t d vs \<in> set fs"
  shows "\<exists>x. in_range t x \<and> doc_get (model_dump v) [n] = Some (model_dump x)"
proof -
  from assms(1) obtain data where v: "v = VModel data" and r: "fields_in_range fs data"
    by (cases v) simp_all
  from fields_in_range_lookup [OF r assms(2,3)] obtain x where
    "map_of data n = Some x" and "in_range t x" by blast
  then show ?thesis unfolding v doc_get_field by auto
qed

lemma in_range_Path: "in_range TPath x \<Longrightarrow> \<exists>p. x = VPath p"
  by (cases x) simp_all

lemma in_range_Enum: "in_range (TEnum members) x \<Longrightarrow> \<exists>s. x = VEnum s"
  by (cases x) simp_all

lemma serialized_strings:
  assumes h: "in_range (TModel (Config_fields ucd)) cfg"
  shows "\<exists>device level cache.
     doc_get (model_dump cfg) [''models'', ''device''] = Some (PStr device) \<and>
     doc_get (model_dump cfg) [''logging'', ''level''] = Some (PStr level) \<and>
     doc_get (model_dump cfg) [''storage'', ''cache_directory''] = Some (PStr cache)"
proof -
  from Config_groups [OF h] obtain v1 v2 v3 v4 v5 v6 v7 v8 v9 v10 v11 where
    c: "cfg = VModel [(''models'', v1), (''frame_extraction'', v2), (''quality'', v3),
       (''pose_classification'', v4), (''head_angle'', v5), (''closeup_detection'', v6),
       (''frame_selection'', v7), (''output'', v8), (''storage'', v9), (''processing'', v10),
       (''logging'', v11)]"
    and h1: "in_range (TModel ModelConfig_fields) v1"
    and "in_range (TModel FrameExtractionConfig_fields) v2"
    and "in_range (TModel QualityConfig_fields) v3"
    and "in_range (TModel PoseClassificationConfig_fields) v4"
    and "in_range (TModel HeadAngleConfig_fields) v5"
    and "in_range (TModel CloseupDetectionConfig_fields) v6"
    and "in_range (TModel FrameSelectionConfig_fields) v7"
    and "in_range (TModel OutputConfig_fields) v8"
    and h9: "in_range (TModel (StorageConfig_fields ucd)) v9"
    and "in_range (TModel ProcessingConfig_fields) v10"
    and h11: "in_range (TModel LoggingConfig_fields) v11"
    by blast
  have "\<exists>x. in_range (TEnum DeviceType_values) x \<and>
      doc_get (model_dump v1) [''device''] = Some (model_dump x)"
    by (rule model_field_dump [OF h1, where d = "VEnum ''auto''" and vs = "[]"])
       (simp_all add: ModelConfig_fields_def)
  then obtain xdevice where id: "in_range (TEnum DeviceType_values) xdevice"
    and dd: "doc_get (model_dump v1) [''device''] = Some (model_dump xdevice)" by blast
  from in_range_Enum [OF id] obtain device where "xdevice = VEnum device" by blast
  with dd have d: "doc_get (model_dump v1) [''device''] = Some (PStr device)" by simp
  have "\<exists>x. in_range (TEnum LogLevel_values) x \<and>
      doc_get (model_dump v11) [''level''] = Some (model_dump x)"
    by (rule model_field_dump [OF h11, where d = "VEnum ''INFO''" and vs = "[]"])
       (simp_all add: LoggingConfig_fields_def)
  then obtain xlevel where il: "in_range (TEnum LogLevel_values) xlevel"
    and dl: "doc_get (model_dump v11) [''level''] = Some (model_dump xlevel)" by blast
  from in_range_Enum [OF il] obtain level where "xlevel = VEnum level" by blast
  with dl have l: "doc_get (model_dump v11) [''level''] = Some (PStr level)" by simp
  have "\<exists>x. in_range TPath x \<and>
      doc_get (model_dump v9) [''cache_directory''] = Some (model_dump x)"
    by (rule model_field_dump [OF h9, where d = "VPath (Path_str ucd)" and vs = "[]"])
       (simp_all add: StorageConfig_fields_def)
  then obtain xcache where ip: "in_range TPath xcache"
    and dp: "doc_get (model_dump v9) [''cache_directory''] = Some (model_dump xcache)" by blast
  from in_range_Path [OF ip] obtain cache where "xcache = VPath cache" by blast
  with dp have p: "doc_get (model_dump v9) [''cache_directory''] = Some (PStr cache)" by simp
  have "doc_get (model_dump cfg) [''models'', ''device''] = doc_get (model_dump v1) [''device'']"
    and "doc_get (model_dump cfg) [''logging'', ''level''] = doc_get (model_dump v11) [''level'']"
    and "doc_get (model_dump cfg) [''storage'', ''cache_directory''] =
         doc_get (model_dump v9) [''cache_directory'']"
    unfolding c by simp_all
  with d l p show ?thesis by simp
qed

text \<open>
  Claim C2 (the code does not do what the claim says). The sum of the two weights is
  compared with 1.0 only while \<open>quality_weight\<close> is validated. Constructing
  \<open>FrameSelectionConfig(face_size_weight=0.6)\<close> succeeds with the default
  \<open>quality_weight\<close> 0.7, a sum of 1.3; assigning \<open>face_size_weight = 0.6\<close> to the default
  instance succeeds with the same sum, whether assignments are validated or not. With
  validated assignment the claim's example holds from there on (\<open>quality_weight = 0.5\<close>
  raises, \<open>quality_weight = 0.4\<close> succeeds); without it, which is how
  \<open>FrameSelectionConfig\<close> is declared, \<open>quality_weight = 0.5\<close> is accepted too.
\<close>

theorem weights_sum_checked_for_quality_weight_only:
  "model_init FrameSelectionConfig_fields [(''face_size_weight'', PFloat (6 / 10))] =
     Inr (VModel [(''min_quality_threshold'', VFloat (2 / 10)), (''face_size_weight'', VFloat (6 / 10)),
                  (''quality_weight'', VFloat (7 / 10)), (''diversity_threshold'', VFloat (8 / 10))]) \<and>
   setattr_float True FrameSelectionConfig_fields (map default_of FrameSelectionConfig_fields)
       ''face_size_weight'' (6 / 10) =
     Inr [(''min_quality_threshold'', VFloat (2 / 10)), (''face_size_weight'', VFloat (6 / 10)),
          (''quality_weight'', VFloat (7 / 10)), (''diversity_threshold'', VFloat (8 / 10))] \<and>
   setattr_float False FrameSelectionConfig_fields (map default_of FrameSelectionConfig_fields)
       ''face_size_weight'' (6 / 10) =
     Inr [(''min_quality_threshold'', VFloat (2 / 10)), (''face_size_weight'', VFloat (6 / 10)),
          (''quality_weight'', VFloat (7 / 10)), (''diversity_threshold'', VFloat (8 / 10))] \<and>
   (1 :: rat) < 6 / 10 + 7 / 10 \<and>
   setattr_float True FrameSelectionConfig_fields
       [(''min_quality_threshold'', VFloat (2 / 10)), (''face_size_weight'', VFloat (6 / 10)),
        (''quality_weight'', VFloat (7 / 10)), (''diversity_threshold'', VFloat (8 / 10))]
       ''quality_weight'' (5 / 10) =
     Inl (ValidationError [[''quality_weight'']]) \<and>
   setattr_float True FrameSelectionConfig_fields
       [(''min_quality_threshold'', VFloat (2 / 10)), (''face_size_weight'', VFloat (6 / 10)),
        (''quality_weight'', VFloat (7 / 10)), (''diversity_threshold'', VFloat (8 / 10))]
       ''quality_weight'' (4 / 10) =
     Inr [(''min_quality_threshold'', VFloat (2 / 10)), (''face_size_weight'', VFloat (6 / 10)),
          (''quality_weight'', VFloat (4 / 10)), (''diversity_threshold'', VFloat (8 / 10))] \<and>
   setattr_float False FrameSelectionConfig_fields
       [(''min_quality_threshold'', VFloat (2 / 10)), (''face_size_weight'', VFloat (6 / 10)),
        (''quality_weight'', VFloat (7 / 10)), (''diversity_threshold'', VFloat (8 / 10))]
       ''quality_weight'' (5 / 10) =
     Inr [(''min_quality_threshold'', VFloat (2 / 10)), (''face_size_weight'', VFloat (6 / 10)),
          (''quality_weight'', VFloat (5 / 10)), (''diversity_threshold'', VFloat (8 / 10))]"
  by (simp add: model_init_def setattr_float_def FrameSelectionConfig_fields_def
      validate_weights_sum_def update_field_def)

text \<open>
  Claim C3 (the code does not do what the claim says). \<open>from_env\<close> returns the
  configuration of the defaults whatever the process environment holds: with
  \<open>PERSONFROMVID_MODELS__BATCH_SIZE=4\<close> set, \<open>models.batch_size\<close> is 1.
\<close>

theorem from_env_ignores_environment:
  "from_env environ ucd = Config_init ucd [] \<and>
   config_get (from_env [''PERSONFROMVID_MODELS__BATCH_SIZE'' \<mapsto> ''4''] ucd)
     [''models'', ''batch_size''] = Some (VInt 1)"
  by (simp add: config_get_def from_env_def Config_init_def model_init_def schema_defs)

text \<open>
  Claim C5 (the code does not do what the claim says).
  \<open>Config(frame_selection={"face_size_weight": 0.6})\<close> is constructed, and each of its
  fields is of its declared type and within its declared range: \<open>face_size_weight\<close> is
  0.6 and \<open>quality_weight\<close> is the default 0.7. \<open>to_file\<close> writes it to \<open>config.yaml\<close>
  without error; in the written document the device, the logging level and the cache
  directory are the plain strings \<open>auto\<close>, \<open>INFO\<close> and \<open>/cache\<close>, and the two path
  fields that are not set are \<open>None\<close>. \<open>from_file\<close> on that file does not return the
  configuration: it raises a validation error for \<open>frame_selection.quality_weight\<close>,
  because the two weights add up to 1.3. The constructor has let through a pair of
  weights that \<open>validate_weights_sum\<close> is there to refuse (the defect of claim C2).
\<close>

theorem round_trip_fails_on_weight_sum:
  "Config_init ''/cache'' [(''frame_selection'', PDict [(''face_size_weight'', PFloat (6 / 10))])] =
     Inr (heavy_face_config ''/cache'') \<and>
   in_range (TModel (Config_fields ''/cache'')) (heavy_face_config ''/cache'') \<and>
   getattr_path (heavy_face_config ''/cache'') [''frame_selection'', ''face_size_weight''] =
     Some (VFloat (6 / 10)) \<and>
   getattr_path (heavy_face_config ''/cache'') [''frame_selection'', ''quality_weight''] =
     Some (VFloat (7 / 10)) \<and>
   to_file Map.empty (heavy_face_config ''/cache'') ''config.yaml'' =
     (None, [''config.yaml'' \<mapsto> Parsed (model_dump (heavy_face_config ''/cache''))]) \<and>
   doc_get (model_dump (heavy_face_config ''/cache'')) [''models'', ''device''] = Some (PStr ''auto'') \<and>
   doc_get (model_dump (heavy_face_config ''/cache'')) [''logging'', ''level''] = Some (PStr ''INFO'') \<and>
   doc_get (model_dump (heavy_face_config ''/cache'')) [''storage'', ''cache_directory''] =
     Some (PStr ''/cache'') \<and>
   doc_get (model_dump (heavy_face_config ''/cache'')) [''storage'', ''temp_directory''] = Some PNone \<and>
   doc_get (model_dump (heavy_face_config ''/cache'')) [''logging'', ''log_file''] = Some PNone \<and>
   doc_get (model_dump (heavy_face_config ''/cache'')) [''frame_selection'', ''face_size_weight''] =
     Some (PFloat (6 / 10)) \<and>
   doc_get (model_dump (heavy_face_config ''/cache'')) [''frame_selection'', ''quality_weight''] =
     Some (PFloat (7 / 10)) \<and>
   from_file [''config.yaml'' \<mapsto> Parsed (model_dump (heavy_face_config ''/cache''))]
       ''/cache'' ''config.yaml'' =
     Inl (ValidationError [[''frame_selection'', ''quality_weight'']])"
proof (intro conjI)
  show "Config_init ''/cache'' [(''frame_selection'', PDict [(''face_size_weight'', PFloat (6 / 10))])] =
     Inr (heavy_face_config ''/cache'')"
    by (rule heavy_face_reached)
  show "in_range (TModel (Config_fields ''/cache'')) (heavy_face_config ''/cache'')"
    by (rule heavy_face_in_range)
  show "getattr_path (heavy_face_config ''/cache'') [''frame_selection'', ''face_size_weight''] =
     Some (VFloat (6 / 10))"
    by (simp add: heavy_face_config_def schema_defs update_field_def)
  show "getattr_path (heavy_face_config ''/cache'') [''frame_selection'', ''quality_weight''] =
     Some (VFloat (7 / 10))"
    by (simp add: heavy_face_config_def schema_defs update_field_def)
  show "to_file Map.empty (heavy_face_config ''/cache'') ''config.yaml'' =
     (None, [''config.yaml'' \<mapsto> Parsed (model_dump (heavy_face_config ''/cache''))])"
    by (simp add: to_file_def suffix_eval path_ancestors_def path_parts_def)
  show "doc_get (model_dump (heavy_face_config ''/cache'')) [''models'', ''device''] = Some (PStr ''auto'')"
    by (simp add: heavy_face_config_def schema_defs update_field_def)
  show "doc_get (model_dump (heavy_face_config ''/cache'')) [''logging'', ''level''] = Some (PStr ''INFO'')"
    by (simp add: heavy_face_config_def schema_defs update_field_def)
  show "doc_get (model_dump (heavy_face_config ''/cache'')) [''storage'', ''cache_directory''] =
     Some (PStr ''/cache'')"
    by (simp add: heavy_face_config_def schema_defs update_field_def Path_str_cache)
  show "doc_get (model_dump (heavy_face_config ''/cache'')) [''storage'', ''temp_directory''] = Some PNone"
    by (simp add: heavy_face_config_def schema_defs update_field_def)
  show "doc_get (model_dump (heavy_face_config ''/cache'')) [''logging'', ''log_file''] = Some PNone"
    by (simp add: heavy_face_config_def schema_defs update_field_def)
  show "doc_get (model_dump (heavy_face_config ''/cache'')) [''frame_selection'', ''face_size_weight''] =
     Some (PFloat (6 / 10))"
    by (simp add: heavy_face_config_def schema_defs update_field_def)
  show "doc_get (model_dump (heavy_face_config ''/cache'')) [''frame_selection'', ''quality_weight''] =
     Some (PFloat (7 / 10))"
    by (simp add: heavy_face_config_def schema_defs update_field_def)
  show "from_file [''config.yaml'' \<mapsto> Parsed (model_dump (heavy_face_config ''/cache''))]
       ''/cache'' ''config.yaml'' =
     Inl (ValidationError [[''frame_selection'', ''quality_weight'']])"
    by (rule heavy_face_reload)
qed

text \<open>
  Claim C6 (the code does not do what the claim says in one case). A missing path gives
  the not-found error, an extension other than yaml, yml and json the unsupported-format
  error, a batch size of 65 a validation error that names \<open>models.batch_size\<close>, and two
  weights given as 0.6 and 0.5 a validation error that names
  \<open>frame_selection.quality_weight\<close>. But a file that gives \<open>face_size_weight: 0.6\<close>
  alone loads without error into a configuration whose weights are 0.6 and 0.7.
\<close>

theorem from_file_accepts_weight_sum_above_one:
  "from_file Map.empty ucd ''config.yaml'' = Inl FileNotFoundError \<and>
   from_file [''config.txt'' \<mapsto> Unparsable] ucd ''config.txt'' =
     Inl (ValueError ''Unsupported config file format: .txt'') \<and>
   from_file [''config.json'' \<mapsto> Parsed (PDict [(''models'', PDict [(''batch_size'', PInt 65)])])]
       ucd ''config.json'' =
     Inl (ValidationError [[''models'', ''batch_size'']]) \<and>
   from_file [''config.yml'' \<mapsto> Parsed (PDict [(''frame_selection'',
         PDict [(''face_size_weight'', PFloat (6 / 10)), (''quality_weight'', PFloat (5 / 10))])])]
       ucd ''config.yml'' =
     Inl (ValidationError [[''frame_selection'', ''quality_weight'']]) \<and>
   config_get
     (from_file [''config.yaml'' \<mapsto> Parsed (PDict [(''frame_selection'',
         PDict [(''face_size_weight'', PFloat (6 / 10))])])] ucd ''config.yaml'')
     [''frame_selection'', ''face_size_weight''] = Some (VFloat (6 / 10)) \<and>
   config_get
     (from_file [''config.yaml'' \<mapsto> Parsed (PDict [(''frame_selection'',
         PDict [(''face_size_weight'', PFloat (6 / 10))])])] ucd ''config.yaml'')
     [''frame_selection'', ''quality_weight''] = Some (VFloat (7 / 10)) \<and>
   (1 :: rat) < 6 / 10 + 7 / 10"
proof (intro conjI)
  show "from_file Map.empty ucd ''config.yaml'' = Inl FileNotFoundError"
    by (simp add: from_file_def)
  show "from_file [''config.txt'' \<mapsto> Unparsable] ucd ''config.txt'' =
     Inl (ValueError ''Unsupported config file format: .txt'')"
    by (simp add: from_file_def suffix_eval)
  show "from_file [''config.json'' \<mapsto> Parsed (PDict [(''models'', PDict [(''batch_size'', PInt 65)])])]
       ucd ''config.json'' =
     Inl (ValidationError [[''models'', ''batch_size'']])"
    by (simp add: from_file_def suffix_eval Config_init_def model_init_def schema_defs)
  show "from_file [''config.yml'' \<mapsto> Parsed (PDict [(''frame_selection'',
         PDict [(''face_size_weight'', PFloat (6 / 10)), (''quality_weight'', PFloat (5 / 10))])])]
       ucd ''config.yml'' =
     Inl (ValidationError [[''frame_selection'', ''quality_weight'']])"
    by (simp add: from_file_def suffix_eval Config_init_def model_init_def schema_defs
        validate_weights_sum_def)
  show "config_get
     (from_file [''config.yaml'' \<mapsto> Parsed (PDict [(''frame_selection'',
         PDict [(''face_size_weight'', PFloat (6 / 10))])])] ucd ''config.yaml'')
     [''frame_selection'', ''face_size_weight''] = Some (VFloat (6 / 10))"
    by (simp add: config_get_def from_file_def suffix_eval Config_init_def model_init_def schema_defs
        validate_weights_sum_def)
  show "config_get
     (from_file [''config.yaml'' \<mapsto> Parsed (PDict [(''frame_selection'',
         PDict [(''face_size_weight'', PFloat (6 / 10))])])] ucd ''config.yaml'')
     [''frame_selection'', ''quality_weight''] = Some (VFloat (7 / 10))"
    by (simp add: config_get_def from_file_def suffix_eval Config_init_def model_init_def schema_defs
        validate_weights_sum_def)
  show "(1 :: rat) < 6 / 10 + 7 / 10" by simp
qed

end
